theory Spec2Isabelle
  imports Main "HOL-Library.Word"
begin

unbundle bit_operations_syntax

section \<open>JavaScript values\<close>

text \<open>
  The handler of \<^verbatim>\<open>index.js\<close> receives untyped data: the request of the API gateway, or an
  event (or array of events) of a direct invocation. The values are those \<^verbatim>\<open>JSON.parse\<close> can
  produce, plus \<^verbatim>\<open>undefined\<close>. Numbers are the integral ones (a Unix timestamp in seconds);
  non-integral doubles, \<^verbatim>\<open>NaN\<close> and the infinities are not values of this type. An object is
  its list of own properties, the first binding of a key being the one that counts. Strings
  are sequences of bytes (the UTF-8 encoding that \<^verbatim>\<open>hash.update\<close> digests).
\<close>

datatype jsval =
    JUndefined
  | JNull
  | JBool bool
  | JNum int
  | JStr string
  | JArr "jsval list"
  | JObj "(string \<times> jsval) list"

datatype js_error = TypeError | RangeError | SyntaxError | Error string

text \<open>Sequencing of computations that may throw: the first exception wins.\<close>

definition andThen :: "'e + 'a \<Rightarrow> ('a \<Rightarrow> 'e + 'b) \<Rightarrow> 'e + 'b" where
  "andThen r f = (case r of Inl e \<Rightarrow> Inl e | Inr v \<Rightarrow> f v)"

text \<open>\<^verbatim>\<open>!! v\<close>: ToBoolean.\<close>

fun truthy :: "jsval \<Rightarrow> bool" where
  "truthy JUndefined = False"
| "truthy JNull = False"
| "truthy (JBool b) = b"
| "truthy (JNum n) = (n \<noteq> 0)"
| "truthy (JStr s) = (s \<noteq> [])"
| "truthy (JArr xs) = True"
| "truthy (JObj kvs) = True"

text \<open>
  \<^verbatim>\<open>v.k\<close> for one of the property names that the program reads (none of them is a
  property of a built-in prototype): a TypeError on \<^verbatim>\<open>undefined\<close> and \<^verbatim>\<open>null\<close>, the own
  property of an object, \<^verbatim>\<open>undefined\<close> everywhere else.
\<close>

fun get :: "jsval \<Rightarrow> string \<Rightarrow> js_error + jsval" where
  "get JUndefined k = Inl TypeError"
| "get JNull k = Inl TypeError"
| "get (JObj kvs) k = Inr (case map_of kvs k of None \<Rightarrow> JUndefined | Some v \<Rightarrow> v)"
| "get v k = Inr JUndefined"

text \<open>\<^verbatim>\<open>xs[i]\<close> on an array or a string: \<^verbatim>\<open>undefined\<close> (here \<open>None\<close>) out of range.\<close>

fun at :: "'a list \<Rightarrow> nat \<Rightarrow> 'a option" where
  "at [] i = None"
| "at (x # xs) 0 = Some x"
| "at (x # xs) (Suc i) = at xs i"

text \<open>
  \<^verbatim>\<open>String.prototype.split\<close> with a string separator: the pieces between the occurrences of
  the separator, found from left to right; with the empty separator, the single characters.
\<close>

function split_from :: "string \<Rightarrow> string \<Rightarrow> string \<Rightarrow> string list" where
  "split_from sep acc [] = [rev acc]"
| "split_from sep acc (c # cs) =
     (if sep \<noteq> [] \<and> take (length sep) (c # cs) = sep
      then rev acc # split_from sep [] (drop (length sep) (c # cs))
      else split_from sep (c # acc) cs)"
  by pat_completeness auto
termination
  by (relation "measure (\<lambda>(sep, acc, s). length s)") auto

definition split_js :: "string \<Rightarrow> string \<Rightarrow> string list" where
  "split_js sep s = (if sep = [] then map (\<lambda>c. [c]) s else split_from sep [] s)"

text \<open>
  \<^verbatim>\<open>v.split(sep)\<close> on an arbitrary value: only a string has a callable \<^verbatim>\<open>split\<close>; on every
  other value the call is a TypeError (no such property, or a property that is no function).
\<close>

definition split_method :: "jsval \<Rightarrow> string \<Rightarrow> js_error + string list" where
  "split_method v sep = (case v of JStr s \<Rightarrow> Inr (split_js sep s) | _ \<Rightarrow> Inl TypeError)"

section \<open>Dates\<close>

text \<open>
  A time value is a number of milliseconds since the epoch, or \<^verbatim>\<open>NaN\<close> (\<open>None\<close>) for an
  invalid date. \<^verbatim>\<open>new Date(t)\<close> clips \<open>t\<close> to the range of 100,000,000 days around the epoch
  (ECMAScript, TimeClip).
\<close>

definition TimeClip :: "int \<Rightarrow> int option" where
  "TimeClip t = (if \<bar>t\<bar> > 8640000000000000 then None else Some t)"

definition digit :: "int \<Rightarrow> char" where
  "digit d = ''0123456789'' ! nat d"

fun zero_pad :: "nat \<Rightarrow> int \<Rightarrow> string" where
  "zero_pad 0 n = []"
| "zero_pad (Suc w) n = zero_pad w (n div 10) @ [digit (n mod 10)]"

text \<open>The proleptic Gregorian date of a day number (days since 1970-01-01).\<close>

definition civil_from_days :: "int \<Rightarrow> int \<times> int \<times> int" where
  "civil_from_days days =
     (let z = days + 719468;
          era = z div 146097;
          doe = z mod 146097;
          yoe = (doe - doe div 1460 + doe div 36524 - doe div 146096) div 365;
          doy = doe - (365 * yoe + yoe div 4 - yoe div 100);
          mp = (5 * doy + 2) div 153;
          d = doy - (153 * mp + 2) div 5 + 1;
          m = (if mp < 10 then mp + 3 else mp - 9);
          y = yoe + era * 400 + (if m \<le> 2 then 1 else 0)
      in (y, m, d))"

definition year_string :: "int \<Rightarrow> string" where
  "year_string y =
     (if 0 \<le> y \<and> y \<le> 9999 then zero_pad 4 y
      else (if y < 0 then CHR ''-'' else CHR ''+'') # zero_pad 6 \<bar>y\<bar>)"

definition iso_format :: "int \<Rightarrow> string" where
  "iso_format t =
     (let (y, m, d) = civil_from_days (t div 86400000);
          tw = t mod 86400000
      in year_string y @ ''-'' @ zero_pad 2 m @ ''-'' @ zero_pad 2 d @ ''T''
           @ zero_pad 2 (tw div 3600000) @ '':'' @ zero_pad 2 (tw div 60000 mod 60) @ '':''
           @ zero_pad 2 (tw div 1000 mod 60) @ ''.'' @ zero_pad 3 (tw mod 1000) @ ''Z'')"

text \<open>\<^verbatim>\<open>Date.prototype.toISOString\<close>: a RangeError on an invalid date.\<close>

definition toISOString :: "int option \<Rightarrow> js_error + string" where
  "toISOString tv = (case tv of None \<Rightarrow> Inl RangeError | Some t \<Rightarrow> Inr (iso_format t))"

section \<open>The hasher\<close>

text \<open>
  \<^verbatim>\<open>crypto.createHash('sha256')\<close> is SHA-256 (FIPS 180-4) on 32-bit words, and
  \<^verbatim>\<open>digest('base64')\<close> the base64 encoding (RFC 4648) of its 32 bytes.
\<close>

type_synonym w32 = "32 word"
type_synonym byte = "8 word"
type_synonym sha_state = "w32 \<times> w32 \<times> w32 \<times> w32 \<times> w32 \<times> w32 \<times> w32 \<times> w32"

definition K256 :: "w32 list" where
  "K256 =
    [0x428A2F98, 0x71374491, 0xB5C0FBCF, 0xE9B5DBA5, 0x3956C25B, 0x59F111F1, 0x923F82A4, 0xAB1C5ED5,
     0xD807AA98, 0x12835B01, 0x243185BE, 0x550C7DC3, 0x72BE5D74, 0x80DEB1FE, 0x9BDC06A7, 0xC19BF174,
     0xE49B69C1, 0xEFBE4786, 0x0FC19DC6, 0x240CA1CC, 0x2DE92C6F, 0x4A7484AA, 0x5CB0A9DC, 0x76F988DA,
     0x983E5152, 0xA831C66D, 0xB00327C8, 0xBF597FC7, 0xC6E00BF3, 0xD5A79147, 0x06CA6351, 0x14292967,
     0x27B70A85, 0x2E1B2138, 0x4D2C6DFC, 0x53380D13, 0x650A7354, 0x766A0ABB, 0x81C2C92E, 0x92722C85,
     0xA2BFE8A1, 0xA81A664B, 0xC24B8B70, 0xC76C51A3, 0xD192E819, 0xD6990624, 0xF40E3585, 0x106AA070,
     0x19A4C116, 0x1E376C08, 0x2748774C, 0x34B0BCB5, 0x391C0CB3, 0x4ED8AA4A, 0x5B9CCA4F, 0x682E6FF3,
     0x748F82EE, 0x78A5636F, 0x84C87814, 0x8CC70208, 0x90BEFFFA, 0xA4506CEB, 0xBEF9A3F7, 0xC67178F2]"

definition H256 :: sha_state where
  "H256 = (0x6A09E667, 0xBB67AE85, 0x3C6EF372, 0xA54FF53A,
           0x510E527F, 0x9B05688C, 0x1F83D9AB, 0x5BE0CD19)"

definition Ch :: "w32 \<Rightarrow> w32 \<Rightarrow> w32 \<Rightarrow> w32" where
  "Ch x y z = (x AND y) XOR (NOT x AND z)"

definition Maj :: "w32 \<Rightarrow> w32 \<Rightarrow> w32 \<Rightarrow> w32" where
  "Maj x y z = (x AND y) XOR (x AND z) XOR (y AND z)"

definition Sigma0 :: "w32 \<Rightarrow> w32" where
  "Sigma0 x = word_rotr 2 x XOR word_rotr 13 x XOR word_rotr 22 x"

definition Sigma1 :: "w32 \<Rightarrow> w32" where
  "Sigma1 x = word_rotr 6 x XOR word_rotr 11 x XOR word_rotr 25 x"

definition sigma0 :: "w32 \<Rightarrow> w32" where
  "sigma0 x = word_rotr 7 x XOR word_rotr 18 x XOR drop_bit 3 x"

definition sigma1 :: "w32 \<Rightarrow> w32" where
  "sigma1 x = word_rotr 17 x XOR word_rotr 19 x XOR drop_bit 10 x"

text \<open>The message schedule: \<open>schedule 48\<close> extends the 16 words of a block to 64.\<close>

fun schedule :: "nat \<Rightarrow> w32 list \<Rightarrow> w32 list" where
  "schedule 0 ws = ws"
| "schedule (Suc n) ws =
     (let l = length ws in
      schedule n (ws @ [sigma1 (ws ! (l - 2)) + ws ! (l - 7) + sigma0 (ws ! (l - 15)) + ws ! (l - 16)]))"

fun sha_round :: "sha_state \<Rightarrow> w32 \<times> w32 \<Rightarrow> sha_state" where
  "sha_round (a, b, c, d, e, f, g, h) (k, w) =
     (let T1 = h + Sigma1 e + Ch e f g + k + w;
          T2 = Sigma0 a + Maj a b c
      in (T1 + T2, a, b, c, d + T1, e, f, g))"

fun add_state :: "sha_state \<Rightarrow> sha_state \<Rightarrow> sha_state" where
  "add_state (a, b, c, d, e, f, g, h) (a', b', c', d', e', f', g', h') =
     (a + a', b + b', c + c', d + d', e + e', f + f', g + g', h + h')"

definition compress :: "sha_state \<Rightarrow> w32 list \<Rightarrow> sha_state" where
  "compress st block = add_state st (foldl sha_round st (zip K256 (schedule 48 block)))"

fun be_words :: "byte list \<Rightarrow> w32 list" where
  "be_words (b0 # b1 # b2 # b3 # bs) =
     (push_bit 24 (ucast b0) OR push_bit 16 (ucast b1) OR push_bit 8 (ucast b2) OR ucast b3)
       # be_words bs"
| "be_words _ = []"

text \<open>Padding: the bit 1, zeros up to 56 modulo 64 bytes, the length in bits on 64 bits.\<close>

definition pad :: "byte list \<Rightarrow> byte list" where
  "pad msg =
     (let l = length msg; bits = (word_of_nat (8 * l) :: 64 word) in
      msg @ [0x80] @ replicate ((119 - l mod 64) mod 64) 0
          @ map (\<lambda>i. ucast (drop_bit (8 * (7 - i)) bits)) [0..<8])"

fun blocks :: "w32 list \<Rightarrow> w32 list list" where
  "blocks [] = []"
| "blocks ws = take 16 ws # blocks (drop 16 ws)"

definition word_bytes :: "w32 \<Rightarrow> byte list" where
  "word_bytes w = [ucast (drop_bit 24 w), ucast (drop_bit 16 w), ucast (drop_bit 8 w), ucast w]"

fun state_bytes :: "sha_state \<Rightarrow> byte list" where
  "state_bytes (a, b, c, d, e, f, g, h) = concat (map word_bytes [a, b, c, d, e, f, g, h])"

definition sha256 :: "string \<Rightarrow> byte list" where
  "sha256 s = state_bytes (foldl compress H256 (blocks (be_words (pad (map of_char s)))))"

definition b64_alphabet :: string where
  "b64_alphabet = ''ABCDEFGHIJKLMNOPQRSTUVWXYZabcdefghijklmnopqrstuvwxyz0123456789+/''"

definition b64 :: "byte \<Rightarrow> char" where
  "b64 n = b64_alphabet ! unat (n AND 63)"

fun base64 :: "byte list \<Rightarrow> string" where
  "base64 (b0 # b1 # b2 # bs) =
     b64 (drop_bit 2 b0) # b64 (push_bit 4 b0 OR drop_bit 4 b1)
       # b64 (push_bit 2 b1 OR drop_bit 6 b2) # b64 b2 # base64 bs"
| "base64 [b0, b1] =
     [b64 (drop_bit 2 b0), b64 (push_bit 4 b0 OR drop_bit 4 b1), b64 (push_bit 2 b1), CHR ''='']"
| "base64 [b0] =
     [b64 (drop_bit 2 b0), b64 (push_bit 4 b0), CHR ''='', CHR ''='']"
| "base64 [] = []"

text \<open>
  \<^verbatim>\<open>createHash (value)\<close>. \<^verbatim>\<open>hash.update\<close> accepts a string (or a buffer, which is no value
  of type \<open>jsval\<close>) and throws a TypeError on anything else, \<^verbatim>\<open>undefined\<close> included.
\<close>

definition createHash :: "jsval \<Rightarrow> js_error + string" where
  "createHash v = (case v of JStr s \<Rightarrow> Inr (base64 (sha256 s)) | _ \<Rightarrow> Inl TypeError)"

section \<open>Configuration\<close>

text \<open>
  The module reads \<^verbatim>\<open>AUTH\<close> and \<^verbatim>\<open>SQS_SUFFIX\<close> from the environment and throws at load
  time when one is missing or empty; every function below runs with both present.
\<close>

record config =
  AUTH :: string
  SQS_SUFFIX :: string

definition load_config :: "string option \<Rightarrow> string option \<Rightarrow> js_error + config" where
  "load_config auth suffix =
     (case (auth, suffix) of
        (Some a, Some s) \<Rightarrow>
          if a = [] \<or> s = [] then Inl (Error ''Missing config'')
          else Inr \<lparr>AUTH = a, SQS_SUFFIX = s\<rparr>
      | _ \<Rightarrow> Inl (Error ''Missing config''))"

text \<open>\<^verbatim>\<open>AUTH_HASH = createHash(AUTH).split('')\<close>: the characters of the expected digest.\<close>

definition AUTH_HASH :: "config \<Rightarrow> char list" where
  "AUTH_HASH cfg = base64 (sha256 (AUTH cfg))"

definition QUEUES :: "config \<Rightarrow> (string \<times> string) list" where
  "QUEUES cfg =
     [(''Bounce'', ''fxa-email-bounce-'' @ SQS_SUFFIX cfg),
      (''Complaint'', ''fxa-email-complaint-'' @ SQS_SUFFIX cfg),
      (''Delivery'', ''fxa-email-delivery-'' @ SQS_SUFFIX cfg)]"

definition BOUNCE :: string where "BOUNCE = ''bounce''"
definition DELIVERED :: string where "DELIVERED = ''delivered''"
definition DROPPED :: string where "DROPPED = ''dropped''"
definition SPAM :: string where "SPAM = ''spamreport''"

section \<open>The authenticator\<close>

text \<open>
  \<^verbatim>\<open>AUTH_HASH.reduce((equal, char, index) => equal && char === authHash[index], true)\<close>.
  \<^verbatim>\<open>reduce\<close> calls its callback once for every element, with the index. The accumulator of
  the model carries, besides \<^verbatim>\<open>equal\<close>, two counters that the code does not have: the calls
  of the callback and the evaluations of \<^verbatim>\<open>===\<close>, whose operand \<^verbatim>\<open>&&\<close> evaluates only when
  \<^verbatim>\<open>equal\<close> is still true.
\<close>

record cmp =
  equal :: bool
  calls :: nat
  compared :: nat

fun reduce :: "('b \<Rightarrow> 'a \<Rightarrow> nat \<Rightarrow> 'b) \<Rightarrow> 'b \<Rightarrow> 'a list \<Rightarrow> nat \<Rightarrow> 'b" where
  "reduce f acc [] i = acc"
| "reduce f acc (x # xs) i = reduce f (f acc x i) xs (Suc i)"

definition callback :: "string \<Rightarrow> cmp \<Rightarrow> char \<Rightarrow> nat \<Rightarrow> cmp" where
  "callback authHash acc char index =
     (if equal acc
      then \<lparr>equal = (Some char = at authHash index), calls = Suc (calls acc),
             compared = Suc (compared acc)\<rparr>
      else \<lparr>equal = False, calls = Suc (calls acc), compared = compared acc\<rparr>)"

definition compare_digest :: "char list \<Rightarrow> string \<Rightarrow> cmp" where
  "compare_digest expected authHash =
     reduce (callback authHash) \<lparr>equal = True, calls = 0, compared = 0\<rparr> expected 0"

definition authenticate :: "config \<Rightarrow> jsval \<Rightarrow> js_error + bool" where
  "authenticate cfg auth =
     andThen (createHash auth) (\<lambda>authHash. Inr (equal (compare_digest (AUTH_HASH cfg) authHash)))"

section \<open>The environment\<close>

text \<open>
  What the program takes from its host and is not part of the repository:
  \<^item> \<^verbatim>\<open>JSON.parse\<close>, applied to the body of the request: the parsed value, or a SyntaxError;
  \<^item> for a timestamp that is no number, the time value of \<^verbatim>\<open>new Date(timestamp * 1000)\<close>:
    the coercion of strings, arrays and objects to numbers may give a non-integral double
    or \<^verbatim>\<open>NaN\<close>, and may throw, so it is left to the environment;
  \<^item> the queue: \<^verbatim>\<open>SQS_CLIENT.pushAsync(queue, message)\<close>. The \<open>i\<close>-th push of a request is
    fulfilled (\<open>None\<close>) or rejected with an error.
\<close>

record env =
  JSON_parse :: "jsval \<Rightarrow> js_error + jsval"
  coerced_time :: "jsval \<Rightarrow> js_error + int option"
  pushAsync :: "nat \<Rightarrow> jsval \<Rightarrow> jsval \<Rightarrow> js_error option"

section \<open>The event normalizer\<close>

text \<open>\<^verbatim>\<open>new Date(timestamp * 1000).toISOString()\<close>\<close>

definition mapTimestamp :: "env \<Rightarrow> jsval \<Rightarrow> js_error + string" where
  "mapTimestamp e timestamp =
     andThen (case timestamp of JNum n \<Rightarrow> Inr (TimeClip (n * 1000)) | v \<Rightarrow> coerced_time e v)
       toISOString"

definition marshallMailObject :: "jsval \<Rightarrow> string \<Rightarrow> js_error + jsval" where
  "marshallMailObject event timestamp =
     andThen (get event ''sg_message_id'') (\<lambda>sg_message_id.
     andThen (split_method sg_message_id ''.filter'') (\<lambda>parts.
       Inr (JObj [(''timestamp'', JStr timestamp),
                  (''messageId'', case at parts 0 of None \<Rightarrow> JUndefined | Some p \<Rightarrow> JStr p)])))"

definition mapStatusToBounceSubType :: "string list \<Rightarrow> string option" where
  "mapStatusToBounceSubType statusParts =
     (if at statusParts 1 = Some ''1'' then Some ''NoEmail''
      else if at statusParts 1 = Some ''2'' then
        (if at statusParts 2 = Some ''2'' then Some ''MailboxFull''
         else if at statusParts 2 = Some ''3'' then Some ''MessageTooLarge''
         else None)
      else if at statusParts 1 = Some ''6'' then Some ''ContentRejected''
      else None)"

text \<open>\<^verbatim>\<open>x || d\<close> for a variable that is either unset or a non-empty string.\<close>

definition or_else :: "string option \<Rightarrow> string \<Rightarrow> string" where
  "or_else x d = (case x of None \<Rightarrow> d | Some s \<Rightarrow> if s = [] then d else s)"

text \<open>The first part of \<^verbatim>\<open>marshallBounceEvent\<close>: the pair \<^verbatim>\<open>bounceType, bounceSubType\<close>.\<close>

definition bounceTypes :: "jsval \<Rightarrow> js_error + string option \<times> string option" where
  "bounceTypes event =
     andThen (get event ''event'') (\<lambda>ev.
       if ev = JStr DROPPED then Inr (Some ''Permanent'', Some ''Suppressed'')
       else
         andThen (get event ''status'') (\<lambda>status.
         andThen (if truthy status
                  then andThen (split_method status ''.'') (\<lambda>ps. Inr (Some ps))
                  else Inr None) (\<lambda>statusParts.
           case statusParts of
             None \<Rightarrow> Inr (None, None)
           | Some ps \<Rightarrow>
               if length ps = 3
               then Inr (if at ps 0 = Some ''5'' then Some ''Permanent'' else None,
                         mapStatusToBounceSubType ps)
               else Inr (None, None))))"

definition marshallBounceEvent :: "jsval \<Rightarrow> string \<Rightarrow> js_error + jsval" where
  "marshallBounceEvent event timestamp =
     andThen (bounceTypes event) (\<lambda>(bounceType, bounceSubType).
     andThen (get event ''email'') (\<lambda>email.
     andThen (get event ''sg_event_id'') (\<lambda>sg_event_id.
       Inr (JObj
         [(''notificationType'', JStr ''Bounce''),
          (''bounce'', JObj
            [(''bounceType'', JStr (or_else bounceType ''Transient'')),
             (''bounceSubType'', JStr (or_else bounceSubType ''General'')),
             (''bouncedRecipients'', JArr [JObj [(''emailAddress'', email)]]),
             (''timestamp'', JStr timestamp),
             (''feedbackId'', sg_event_id)])]))))"

definition marshallDeliveryEvent :: "jsval \<Rightarrow> string \<Rightarrow> js_error + jsval" where
  "marshallDeliveryEvent event timestamp =
     andThen (get event ''email'') (\<lambda>email.
     andThen (get event ''response'') (\<lambda>response.
       Inr (JObj
         [(''notificationType'', JStr ''Delivery''),
          (''delivery'', JObj
            [(''timestamp'', JStr timestamp),
             (''recipients'', JArr [email]),
             (''smtpResponse'', response)])])))"

definition marshallComplaintEvent :: "jsval \<Rightarrow> string \<Rightarrow> js_error + jsval" where
  "marshallComplaintEvent event timestamp =
     andThen (get event ''email'') (\<lambda>email.
     andThen (get event ''sg_event_id'') (\<lambda>sg_event_id.
       Inr (JObj
         [(''notificationType'', JStr ''Complaint''),
          (''complaint'', JObj
            [(''complainedRecipients'', JArr [JObj [(''emailAddress'', email)]]),
             (''timestamp'', JStr timestamp),
             (''feedbackId'', sg_event_id)])])))"

text \<open>\<^verbatim>\<open>{ mail, ...rest }\<close>, for the object that a marshalling function returned.\<close>

definition with_mail :: "jsval \<Rightarrow> jsval \<Rightarrow> jsval" where
  "with_mail mail rest =
     JObj ((''mail'', mail) # (case rest of JObj kvs \<Rightarrow> kvs | _ \<Rightarrow> []))"

text \<open>\<^verbatim>\<open>marshallEvent\<close>: \<open>Inr JUndefined\<close> is the \<^verbatim>\<open>return\<close> without a value.\<close>

definition marshallEvent :: "env \<Rightarrow> jsval \<Rightarrow> js_error + jsval" where
  "marshallEvent e event =
     (if \<not> truthy event then Inr JUndefined
      else
        andThen (get event ''timestamp'') (\<lambda>ts.
        if \<not> truthy ts then Inr JUndefined
        else
          andThen (get event ''sg_message_id'') (\<lambda>sg_message_id.
          if \<not> truthy sg_message_id then Inr JUndefined
          else
            andThen (get event ''event'') (\<lambda>ev.
            if \<not> truthy ev then Inr JUndefined
            else
              andThen (mapTimestamp e ts) (\<lambda>timestamp.
              andThen (marshallMailObject event timestamp) (\<lambda>mail.
                if ev = JStr BOUNCE \<or> ev = JStr DROPPED then
                  andThen (marshallBounceEvent event timestamp) (\<lambda>r. Inr (with_mail mail r))
                else if ev = JStr DELIVERED then
                  andThen (marshallDeliveryEvent event timestamp) (\<lambda>r. Inr (with_mail mail r))
                else if ev = JStr SPAM then
                  andThen (marshallComplaintEvent event timestamp) (\<lambda>r. Inr (with_mail mail r))
                else Inr JUndefined))))))"

section \<open>The dispatcher\<close>

text \<open>
  \<^verbatim>\<open>sendEvent\<close> issues one push. \<open>Inl\<close> is an exception thrown before the push; otherwise the
  result is the call made (queue and message) and how its promise settles: the \<^verbatim>\<open>then\<close>
  handler only logs, the \<^verbatim>\<open>catch\<close> handler logs and throws the error again.
\<close>

type_synonym push_call = "jsval \<times> jsval"

definition sendEvent :: "config \<Rightarrow> env \<Rightarrow> nat \<Rightarrow> jsval \<Rightarrow> js_error + push_call \<times> js_error option" where
  "sendEvent cfg e i event =
     andThen (get event ''notificationType'') (\<lambda>notificationType.
       let queue = (case notificationType of
                      JStr k \<Rightarrow> (case map_of (QUEUES cfg) k of None \<Rightarrow> JUndefined | Some q \<Rightarrow> JStr q)
                    | _ \<Rightarrow> JUndefined)
       in Inr ((queue, event), pushAsync e i queue event))"

text \<open>
  \<^verbatim>\<open>.map(sendEvent)\<close>: the pushes are issued one after the other, none waiting for an earlier
  one to settle. The second component lists the calls made, also when a later element throws.
\<close>

fun sendEvents :: "config \<Rightarrow> env \<Rightarrow> nat \<Rightarrow> jsval list \<Rightarrow> (js_error + js_error option list) \<times> push_call list" where
  "sendEvents cfg e i [] = (Inr [], [])"
| "sendEvents cfg e i (event # events) =
     (case sendEvent cfg e i event of
        Inl err \<Rightarrow> (Inl err, [])
      | Inr (call, outcome) \<Rightarrow>
          (case sendEvents cfg e (Suc i) events of
             (rest, made) \<Rightarrow> (andThen rest (\<lambda>os. Inr (outcome # os)), call # made)))"

text \<open>
  \<^verbatim>\<open>Promise.all\<close>: rejected as soon as one promise is rejected (with the error of a rejected
  one; here the first in the list), fulfilled with the list of results otherwise. Each
  result is \<^verbatim>\<open>undefined\<close>, the value of \<^verbatim>\<open>console.log\<close>.
\<close>

fun Promise_all :: "js_error option list \<Rightarrow> js_error + jsval list" where
  "Promise_all [] = Inr []"
| "Promise_all (None # os) = andThen (Promise_all os) (\<lambda>rs. Inr (JUndefined # rs))"
| "Promise_all (Some err # os) = Inl err"

text \<open>\<^verbatim>\<open>Array.prototype.map\<close> with a callback that may throw.\<close>

fun mapE :: "('a \<Rightarrow> 'e + 'b) \<Rightarrow> 'a list \<Rightarrow> 'e + 'b list" where
  "mapE f [] = Inr []"
| "mapE f (x # xs) = andThen (f x) (\<lambda>y. andThen (mapE f xs) (\<lambda>ys. Inr (y # ys)))"

definition processEvents :: "config \<Rightarrow> env \<Rightarrow> jsval list \<Rightarrow> (js_error + jsval list) \<times> push_call list" where
  "processEvents cfg e events =
     (case mapE (marshallEvent e) events of
        Inl err \<Rightarrow> (Inl err, [])
      | Inr marshalled \<Rightarrow>
          (case sendEvents cfg e 0 (filter truthy marshalled) of
             (promises, made) \<Rightarrow> (andThen promises Promise_all, made)))"

section \<open>The request handler\<close>

record response =
  statusCode :: nat
  body :: string
  isBase64Encoded :: bool

fun decimal :: "nat \<Rightarrow> string" where
  "decimal n = (if n < 10 then [digit (int n)] else decimal (n div 10) @ [digit (int (n mod 10))])"

declare decimal.simps [simp del]

definition unauthorized :: response where
  "unauthorized = \<lparr>statusCode = 401, body = ''Unauthorized'', isBase64Encoded = False\<rparr>"

definition processed :: "nat \<Rightarrow> response" where
  "processed n =
     \<lparr>statusCode = 200, body = ''Processed '' @ decimal n @ '' events'', isBase64Encoded = False\<rparr>"

definition internal_error :: response where
  "internal_error =
     \<lparr>statusCode = 500, body = ''Internal Server Error'', isBase64Encoded = False\<rparr>"

text \<open>
  The first part of \<^verbatim>\<open>main\<close>, up to the assignment of the parsed body: \<open>Inr (Inl r)\<close> is the
  early \<^verbatim>\<open>return\<close> of the response \<open>r\<close>, \<open>Inr (Inr d)\<close> the new value of \<^verbatim>\<open>data\<close>.
\<close>

definition gateway :: "config \<Rightarrow> env \<Rightarrow> jsval \<Rightarrow> js_error + response + jsval" where
  "gateway cfg e data =
     andThen (get data ''body'') (\<lambda>body.
       if truthy body then
         andThen (get data ''queryStringParameters'') (\<lambda>queryStringParameters.
           if \<not> truthy queryStringParameters then Inr (Inl unauthorized)
           else
             andThen (get queryStringParameters ''auth'') (\<lambda>auth.
             andThen (authenticate cfg auth) (\<lambda>ok.
               if \<not> ok then Inr (Inl unauthorized)
               else andThen (JSON_parse e body) (\<lambda>parsed. Inr (Inr parsed)))))
       else Inr (Inr data))"

text \<open>\<^verbatim>\<open>if (! Array.isArray(data)) { data = [ data ] }\<close>\<close>

definition as_batch :: "jsval \<Rightarrow> jsval list" where
  "as_batch data = (case data of JArr xs \<Rightarrow> xs | v \<Rightarrow> [v])"

text \<open>
  \<^verbatim>\<open>main\<close>, with the calls made to the queue as second component. The \<^verbatim>\<open>catch\<close> turns every
  exception into the same response.
\<close>

definition main :: "config \<Rightarrow> env \<Rightarrow> jsval \<Rightarrow> response \<times> push_call list" where
  "main cfg e data =
     (case gateway cfg e data of
        Inl err \<Rightarrow> (internal_error, [])
      | Inr (Inl early) \<Rightarrow> (early, [])
      | Inr (Inr data') \<Rightarrow>
          (case processEvents cfg e (as_batch data') of
             (Inl err, made) \<Rightarrow> (internal_error, made)
           | (Inr results, made) \<Rightarrow> (processed (length results), made)))"

section \<open>Notions used in the statements\<close>

text \<open>
  The number of leading positions at which two sequences agree: the index of the first
  mismatch, or the length of the shorter one.
\<close>

fun agreeing :: "'a list \<Rightarrow> 'a list \<Rightarrow> nat" where
  "agreeing (x # xs) (y # ys) = (if x = y then Suc (agreeing xs ys) else 0)"
| "agreeing xs ys = 0"

text \<open>The separator occurs in \<open>s\<close> at position \<open>i\<close>.\<close>

definition occurs_at :: "string \<Rightarrow> string \<Rightarrow> nat \<Rightarrow> bool" where
  "occurs_at sep s i = (take (length sep) (drop i s) = sep)"

text \<open>
  The specification's words for the message id: the part of \<open>s\<close> before the first
  occurrence of the separator, all of \<open>s\<close> when there is none.
\<close>

fun before_first :: "string \<Rightarrow> string \<Rightarrow> string" where
  "before_first sep [] = []"
| "before_first sep (c # cs) =
     (if take (length sep) (c # cs) = sep then [] else c # before_first sep cs)"

text \<open>A field of a raw event is missing or falsy.\<close>

definition missing :: "jsval \<Rightarrow> string \<Rightarrow> bool" where
  "missing event k = (case get event k of Inl err \<Rightarrow> True | Inr v \<Rightarrow> \<not> truthy v)"

text \<open>\<^verbatim>\<open>v.k1.k2...\<close>\<close>

fun path :: "jsval \<Rightarrow> string list \<Rightarrow> js_error + jsval" where
  "path v [] = Inr v"
| "path v (k # ks) = andThen (get v k) (\<lambda>x. path x ks)"

text \<open>The pair \<^verbatim>\<open>bounce.bounceType\<close>, \<^verbatim>\<open>bounce.bounceSubType\<close> of a marshalled bounce.\<close>

definition bounce_class :: "js_error + jsval \<Rightarrow> js_error + jsval \<times> jsval" where
  "bounce_class r =
     andThen r (\<lambda>n. andThen (get n ''bounce'') (\<lambda>b.
     andThen (get b ''bounceType'') (\<lambda>t. andThen (get b ''bounceSubType'') (\<lambda>s. Inr (t, s)))))"

text \<open>Sample data: an event as the mail provider posts it, a configuration, environments.\<close>

definition raw_event :: "string \<Rightarrow> jsval \<Rightarrow> jsval" where
  "raw_event kind status =
     JObj [(''email'', JStr ''user@example.com''),
           (''timestamp'', JNum 1609459200),
           (''event'', JStr kind),
           (''sg_event_id'', JStr ''c2dfpAfVQ2GDlKBvy5w0Zw''),
           (''sg_message_id'', JStr ''14c5d75ce93.dfd.64b469.filter0001.16648.5515E0B88.0''),
           (''status'', status)]"

definition sample_config :: config where
  "sample_config = \<lparr>AUTH = ''secret'', SQS_SUFFIX = ''dev''\<rparr>"

text \<open>
  An environment whose \<open>i\<close>-th push settles as \<open>outcome i\<close> says, and in which the body
  parses to \<open>parsed\<close>.
\<close>

definition sample_env :: "(js_error + jsval) \<Rightarrow> (nat \<Rightarrow> js_error option) \<Rightarrow> env" where
  "sample_env parsed outcome =
     \<lparr>JSON_parse = (\<lambda>v. parsed), coerced_time = (\<lambda>v. Inr None),
      pushAsync = (\<lambda>i queue message. outcome i)\<rparr>"

definition quiet_env :: env where
  "quiet_env = sample_env (Inl SyntaxError) (\<lambda>i. None)"

text \<open>The notification of the sample event when it reports a delivery.\<close>

definition sample_delivery :: jsval where
  "sample_delivery =
     JObj [(''mail'', JObj [(''timestamp'', JStr ''2021-01-01T00:00:00.000Z''),
                           (''messageId'', JStr ''14c5d75ce93.dfd.64b469'')]),
           (''notificationType'', JStr ''Delivery''),
           (''delivery'', JObj
             [(''timestamp'', JStr ''2021-01-01T00:00:00.000Z''),
              (''recipients'', JArr [JStr ''user@example.com'']),
              (''smtpResponse'', JUndefined)])]"

text \<open>An event whose timestamp, in milliseconds, lies beyond the last day of a date.\<close>

definition late_event :: "string \<Rightarrow> jsval" where
  "late_event kind =
     JObj [(''email'', JStr ''user@example.com''),
           (''timestamp'', JNum 8640000000001),
           (''event'', JStr kind),
           (''sg_message_id'', JStr ''14c5d75ce93.dfd.64b469.filter0001.16648.5515E0B88.0'')]"

text \<open>A request as the API gateway passes it: a body and the parameters of the query string.\<close>

definition request :: "string \<Rightarrow> (string \<times> jsval) list \<Rightarrow> jsval" where
  "request b query = JObj [(''body'', JStr b), (''queryStringParameters'', JObj query)]"

text \<open>The other two notifications of the sample event.\<close>

definition sample_bounce :: jsval where
  "sample_bounce =
     JObj [(''mail'', JObj [(''timestamp'', JStr ''2021-01-01T00:00:00.000Z''),
                           (''messageId'', JStr ''14c5d75ce93.dfd.64b469'')]),
           (''notificationType'', JStr ''Bounce''),
           (''bounce'', JObj
             [(''bounceType'', JStr ''Permanent''),
              (''bounceSubType'', JStr ''NoEmail''),
              (''bouncedRecipients'', JArr [JObj [(''emailAddress'', JStr ''user@example.com'')]]),
              (''timestamp'', JStr ''2021-01-01T00:00:00.000Z''),
              (''feedbackId'', JStr ''c2dfpAfVQ2GDlKBvy5w0Zw'')])]"

definition sample_complaint :: jsval where
  "sample_complaint =
     JObj [(''mail'', JObj [(''timestamp'', JStr ''2021-01-01T00:00:00.000Z''),
                           (''messageId'', JStr ''14c5d75ce93.dfd.64b469'')]),
           (''notificationType'', JStr ''Complaint''),
           (''complaint'', JObj
             [(''complainedRecipients'', JArr [JObj [(''emailAddress'', JStr ''user@example.com'')]]),
              (''timestamp'', JStr ''2021-01-01T00:00:00.000Z''),
              (''feedbackId'', JStr ''c2dfpAfVQ2GDlKBvy5w0Zw'')])]"

text \<open>A batch of three valid events and, in third place, one without its \<^verbatim>\<open>event\<close> field.\<close>

definition sample_batch :: jsval where
  "sample_batch =
     JArr [raw_event ''bounce'' (JStr ''5.1.1''),
           raw_event ''delivered'' JUndefined,
           JObj [(''timestamp'', JNum 1609459200),
                 (''sg_message_id'', JStr ''14c5d75ce93.dfd.64b469.filter0001.16648.5515E0B88.0'')],
           raw_event ''spamreport'' JUndefined]"

text \<open>
  Two environments in which the body parses to the sample batch: every push succeeds in the
  first, the second push (number 1) is rejected in the other.
\<close>

definition posted_env :: env where
  "posted_env = sample_env (Inr sample_batch) (\<lambda>i. None)"

definition failing_env :: env where
  "failing_env =
     sample_env (Inr sample_batch)
       (\<lambda>i. if i = 1 then Some (Error ''queue unavailable'') else None)"

section \<open>Basic facts\<close>

lemma andThen_Inr [simp]: "andThen (Inr v) f = f v"
  by (simp add: andThen_def)

lemma andThen_Inl [simp]: "andThen (Inl err) f = Inl err"
  by (simp add: andThen_def)

lemma at_drop: "at h i = (case drop i h of [] \<Rightarrow> None | y # ys \<Rightarrow> Some y)"
  by (induction h i rule: at.induct) simp_all

section \<open>The authenticator\<close>

lemma agreeing_le: "agreeing xs ys \<le> length xs"
  by (induction xs ys rule: agreeing.induct) simp_all

lemma agreeing_le2: "agreeing xs ys \<le> length ys"
  by (induction xs ys rule: agreeing.induct) simp_all

lemma agreeing_full: "agreeing xs ys = length xs \<longleftrightarrow> take (length xs) ys = xs"
  by (induction xs ys rule: agreeing.induct) auto

lemma reduce_callback:
  "reduce (callback h) acc xs i =
     (if equal acc
      then \<lparr>equal = (agreeing xs (drop i h) = length xs), calls = calls acc + length xs,
             compared = compared acc + min (length xs) (Suc (agreeing xs (drop i h)))\<rparr>
      else \<lparr>equal = False, calls = calls acc + length xs, compared = compared acc\<rparr>)"
proof (induction xs arbitrary: acc i)
  case Nil
  then show ?case by simp
next
  case (Cons x xs)
  show ?case
  proof (cases "drop i h")
    case Nil
    then show ?thesis
      by (simp add: Cons.IH) (simp add: callback_def at_drop)
  next
    case (Cons y ys)
    then have "drop (Suc i) h = ys"
      by (metis drop_Suc list.sel(3) tl_drop)
    with Cons show ?thesis
      by (simp add: Cons.IH) (simp add: callback_def at_drop)
  qed
qed

lemma length_word_bytes: "length (word_bytes w) = 4"
  by (simp add: word_bytes_def)

lemma length_sha256: "length (sha256 s) = 32"
proof -
  have "length (state_bytes st) = 32" for st
    by (cases st rule: state_bytes.cases) (simp add: length_word_bytes)
  then show ?thesis by (simp add: sha256_def)
qed

lemma length_base64: "length (base64 bs) = 4 * ((length bs + 2) div 3)"
proof (induction bs rule: base64.induct)
  case (1 b0 b1 b2 bs)
  have "(length (b0 # b1 # b2 # bs) + 2) div 3 = Suc ((length bs + 2) div 3)"
    by simp
  with 1 show ?case by simp
qed simp_all

lemma length_digest: "length (base64 (sha256 s)) = 44"
  by (simp add: length_base64 length_sha256)

lemma compare_digest_eq:
  "compare_digest expected authHash =
     \<lparr>equal = (agreeing expected authHash = length expected), calls = length expected,
      compared = min (length expected) (Suc (agreeing expected authHash))\<rparr>"
  by (simp add: compare_digest_def reduce_callback)

lemma authenticate_digest:
  "authenticate cfg (JStr c) = Inr (base64 (sha256 c) = AUTH_HASH cfg)"
proof -
  have "take (length (AUTH_HASH cfg)) (base64 (sha256 c)) = base64 (sha256 c)"
    by (simp add: AUTH_HASH_def length_digest)
  then have "agreeing (AUTH_HASH cfg) (base64 (sha256 c)) = length (AUTH_HASH cfg)
          \<longleftrightarrow> base64 (sha256 c) = AUTH_HASH cfg"
    using agreeing_full [of "AUTH_HASH cfg" "base64 (sha256 c)"] by simp
  then show ?thesis
    by (simp add: authenticate_def createHash_def compare_digest_eq)
qed

lemma authenticate_secret: "authenticate cfg (JStr (AUTH cfg)) = Inr True"
  by (simp add: authenticate_digest AUTH_HASH_def)

lemma authenticate_other: "authenticate cfg v = Inl TypeError" if "\<forall>c. v \<noteq> JStr c"
  using that by (cases v) (simp_all add: authenticate_def createHash_def)

text \<open>
  Claim C2. For every credential string \<open>c\<close>, \<^verbatim>\<open>authenticate(c)\<close> returns true if and only if
  the digest of \<open>c\<close> equals the digest of the configured secret, which is the expected digest
  computed when the module is loaded.
\<close>

theorem authenticate_iff:
  "authenticate cfg (JStr c) = Inr (createHash (JStr c) = createHash (JStr (AUTH cfg)))"
  by (simp add: authenticate_digest createHash_def AUTH_HASH_def)

text \<open>
  Two facts about the comparison, whatever the digests: the callback of the \<^verbatim>\<open>reduce\<close> runs
  once for every position of the expected digest, and a candidate digest shorter than the
  expected one gives false (the positions beyond its length read as \<^verbatim>\<open>undefined\<close>, nothing is
  thrown).
\<close>

lemma compare_digest_calls: "calls (compare_digest expected authHash) = length expected"
  by (simp add: compare_digest_eq)

lemma compare_digest_shorter:
  "length authHash < length expected \<Longrightarrow> \<not> equal (compare_digest expected authHash)"
  using agreeing_le2 [of expected authHash] by (simp add: compare_digest_eq)

section \<open>The event normalizer\<close>

lemma andThen_eq_Inr: "andThen r f = Inr y \<longleftrightarrow> (\<exists>v. r = Inr v \<and> f v = Inr y)"
  by (cases r) simp_all

lemma get_truthy_obj: "get v k = Inr x \<Longrightarrow> truthy x \<Longrightarrow> \<exists>kvs. v = JObj kvs"
  by (cases v) auto

lemma split_from_hd:
  "sep \<noteq> [] \<Longrightarrow> \<exists>rest. split_from sep acc s = (rev acc @ before_first sep s) # rest"
  by (induction sep acc s rule: split_from.induct) auto

lemma split_js_at0: "sep \<noteq> [] \<Longrightarrow> at (split_js sep s) 0 = Some (before_first sep s)"
  using split_from_hd [of sep "[]" s] by (auto simp add: split_js_def)

lemma before_first_prefix: "take (length (before_first sep s)) s = before_first sep s"
  by (induction s) auto

lemma before_first_none_earlier:
  "j < length (before_first sep s) \<Longrightarrow> \<not> occurs_at sep s j"
proof (induction s arbitrary: j)
  case Nil
  then show ?case by simp
next
  case (Cons c cs)
  then show ?case
    by (cases j) (auto simp add: occurs_at_def split: if_splits)
qed

lemma before_first_occurs:
  "occurs_at sep s i \<Longrightarrow> sep \<noteq> [] \<Longrightarrow> occurs_at sep s (length (before_first sep s))"
proof (induction s arbitrary: i)
  case Nil
  then show ?case by (simp add: occurs_at_def)
next
  case (Cons c cs)
  show ?case
  proof (cases "take (length sep) (c # cs) = sep")
    case True
    then show ?thesis by (simp add: occurs_at_def)
  next
    case False
    with Cons.prems obtain i' where "i = Suc i'"
      by (cases i) (auto simp add: occurs_at_def)
    with Cons.prems have "occurs_at sep cs i'"
      by (simp add: occurs_at_def)
    with Cons.IH Cons.prems have "occurs_at sep cs (length (before_first sep cs))"
      by blast
    with False show ?thesis by (simp add: occurs_at_def)
  qed
qed

lemma before_first_absent:
  "\<forall>i. \<not> occurs_at sep s i \<Longrightarrow> before_first sep s = s"
proof (induction s)
  case Nil
  then show ?case by simp
next
  case (Cons c cs)
  from Cons.prems have "\<not> occurs_at sep (c # cs) 0" by blast
  then have ne: "take (length sep) (c # cs) \<noteq> sep" by (simp add: occurs_at_def)
  have "\<forall>i. \<not> occurs_at sep cs i"
  proof
    fix i
    from Cons.prems have "\<not> occurs_at sep (c # cs) (Suc i)" by blast
    then show "\<not> occurs_at sep cs i" by (simp add: occurs_at_def)
  qed
  with Cons.IH ne show ?case by simp
qed

lemma marshallMailObject_string:
  assumes "get event ''sg_message_id'' = Inr (JStr m)"
  shows "marshallMailObject event ts =
           Inr (JObj [(''timestamp'', JStr ts), (''messageId'', JStr (before_first ''.filter'' m))])"
  using assms by (simp add: marshallMailObject_def split_method_def split_js_at0)

lemma marshallMailObject_Inr:
  assumes "marshallMailObject event ts = Inr mail"
  shows "\<exists>m. get event ''sg_message_id'' = Inr (JStr m)"
proof -
  from assms obtain v parts where v: "get event ''sg_message_id'' = Inr v"
    and "split_method v ''.filter'' = Inr parts"
    by (auto simp add: marshallMailObject_def andThen_eq_Inr)
  then show ?thesis
    by (cases v) (simp_all add: split_method_def)
qed

lemma get_truthy_Inr: "truthy v \<Longrightarrow> \<exists>x. get v k = Inr x"
  by (cases v) simp_all

lemma marshallEvent_produced:
  assumes "marshallEvent e event = Inr n" and "n \<noteq> JUndefined"
  shows "\<exists>ts mid ev stamp mail r.
           get event ''timestamp'' = Inr ts \<and> truthy ts \<and>
           get event ''sg_message_id'' = Inr mid \<and> truthy mid \<and>
           get event ''event'' = Inr ev \<and> truthy ev \<and>
           mapTimestamp e ts = Inr stamp \<and> marshallMailObject event stamp = Inr mail \<and>
           n = with_mail mail r \<and>
           ((ev = JStr BOUNCE \<or> ev = JStr DROPPED) \<and> marshallBounceEvent event stamp = Inr r
            \<or> ev = JStr DELIVERED \<and> marshallDeliveryEvent event stamp = Inr r
            \<or> ev = JStr SPAM \<and> marshallComplaintEvent event stamp = Inr r)"
proof -
  have te: "truthy event"
    using assms by (cases "truthy event") (simp_all add: marshallEvent_def)
  then obtain ts mid ev where ts: "get event ''timestamp'' = Inr ts"
    and mid: "get event ''sg_message_id'' = Inr mid" and ev: "get event ''event'' = Inr ev"
    using get_truthy_Inr by blast
  have t1: "truthy ts"
    using assms te ts by (cases "truthy ts") (simp_all add: marshallEvent_def)
  have t2: "truthy mid"
    using assms te ts t1 mid by (cases "truthy mid") (simp_all add: marshallEvent_def)
  have t3: "truthy ev"
    using assms te ts t1 mid t2 ev by (cases "truthy ev") (simp_all add: marshallEvent_def)
  define finish where "finish stamp mail =
     (if ev = JStr BOUNCE \<or> ev = JStr DROPPED then
        andThen (marshallBounceEvent event stamp) (\<lambda>r. Inr (with_mail mail r))
      else if ev = JStr DELIVERED then
        andThen (marshallDeliveryEvent event stamp) (\<lambda>r. Inr (with_mail mail r))
      else if ev = JStr SPAM then
        andThen (marshallComplaintEvent event stamp) (\<lambda>r. Inr (with_mail mail r))
      else Inr JUndefined)" for stamp mail
  have "marshallEvent e event =
          andThen (mapTimestamp e ts) (\<lambda>stamp.
          andThen (marshallMailObject event stamp) (\<lambda>mail. finish stamp mail))"
    using te ts t1 mid t2 ev t3 by (simp add: marshallEvent_def finish_def)
  with assms(1) obtain stamp mail where stamp: "mapTimestamp e ts = Inr stamp"
    and mail: "marshallMailObject event stamp = Inr mail" and fin: "finish stamp mail = Inr n"
    by (auto simp add: andThen_eq_Inr)
  have "\<exists>r. n = with_mail mail r \<and>
          ((ev = JStr BOUNCE \<or> ev = JStr DROPPED) \<and> marshallBounceEvent event stamp = Inr r
            \<or> ev = JStr DELIVERED \<and> marshallDeliveryEvent event stamp = Inr r
            \<or> ev = JStr SPAM \<and> marshallComplaintEvent event stamp = Inr r)"
  proof (cases "ev = JStr BOUNCE \<or> ev = JStr DROPPED")
    case True
    with fin show ?thesis
      by (auto simp add: finish_def andThen_eq_Inr)
  next
    case nb: False
    show ?thesis
    proof (cases "ev = JStr DELIVERED")
      case True
      with fin nb show ?thesis
        by (auto simp add: finish_def andThen_eq_Inr)
    next
      case nd: False
      show ?thesis
      proof (cases "ev = JStr SPAM")
        case True
        with fin nb nd show ?thesis
          by (auto simp add: finish_def andThen_eq_Inr)
      next
        case False
        with fin nb nd assms(2) show ?thesis
          by (simp add: finish_def)
      qed
    qed
  qed
  with ts t1 mid t2 ev t3 stamp mail show ?thesis by blast
qed

lemma mapTimestamp_num:
  "mapTimestamp e (JNum t) =
     (if \<bar>t * 1000\<bar> > 8640000000000000 then Inl RangeError else Inr (iso_format (t * 1000)))"
  by (simp add: mapTimestamp_def TimeClip_def toISOString_def)

lemma get_obj_Inr: "\<exists>x. get (JObj kvs) k = Inr x"
  by simp

lemma bounceTypes_dropped:
  "get event ''event'' = Inr (JStr ''dropped'') \<Longrightarrow>
     bounceTypes event = Inr (Some ''Permanent'', Some ''Suppressed'')"
  by (simp add: bounceTypes_def DROPPED_def)

lemma bounceTypes_falsy:
  "get event ''event'' = Inr ev \<Longrightarrow> ev \<noteq> JStr ''dropped'' \<Longrightarrow>
   get event ''status'' = Inr st \<Longrightarrow> \<not> truthy st \<Longrightarrow> bounceTypes event = Inr (None, None)"
  by (simp add: bounceTypes_def DROPPED_def)

lemma bounceTypes_string:
  "get event ''event'' = Inr ev \<Longrightarrow> ev \<noteq> JStr ''dropped'' \<Longrightarrow>
   get event ''status'' = Inr (JStr s) \<Longrightarrow> s \<noteq> [] \<Longrightarrow>
   bounceTypes event =
     (let ps = split_js ''.'' s in
      if length ps = 3
      then Inr (if at ps 0 = Some ''5'' then Some ''Permanent'' else None, mapStatusToBounceSubType ps)
      else Inr (None, None))"
  by (simp add: bounceTypes_def DROPPED_def split_method_def Let_def)

lemma bounce_class_marshall:
  assumes "bounceTypes event = Inr (bt, bst)" and "event = JObj kvs"
  shows "bounce_class (marshallBounceEvent event ts) =
           Inr (JStr (or_else bt ''Transient''), JStr (or_else bst ''General''))"
  using assms by (simp add: marshallBounceEvent_def bounce_class_def)

lemma split_511: "split_js ''.'' ''5.1.1'' = [''5'', ''1'', ''1'']"
  by (simp add: split_js_def)

lemma split_422: "split_js ''.'' ''4.2.2'' = [''4'', ''2'', ''2'']"
  by (simp add: split_js_def)

lemma split_523: "split_js ''.'' ''5.2.3'' = [''5'', ''2'', ''3'']"
  by (simp add: split_js_def)

lemma split_560: "split_js ''.'' ''5.6.0'' = [''5'', ''6'', ''0'']"
  by (simp add: split_js_def)

lemma at_numeral [simp]: "at (x # xs) 1 = at xs 0" "at (x # y # xs) 2 = at xs 0"
  by (simp_all add: numeral_2_eq_2)

text \<open>
  Claim C3. For a raw event with \<^verbatim>\<open>event == 'bounce'\<close>, the status \<^verbatim>\<open>5.1.1\<close> yields
  Permanent and NoEmail, \<^verbatim>\<open>4.2.2\<close> yields Transient and MailboxFull, \<^verbatim>\<open>5.2.3\<close> yields Permanent
  and MessageTooLarge, \<^verbatim>\<open>5.6.0\<close> yields Permanent and ContentRejected; a status string that does
  not split into exactly three parts at the dots, and a status that is absent or falsy, yield
  Transient and General. For a raw event with \<^verbatim>\<open>event == 'dropped'\<close> the result is Permanent
  and Suppressed whatever the status.
\<close>

theorem bounce_mapping:
  "(get event ''event'' = Inr (JStr ''bounce'') \<longrightarrow>
      (get event ''status'' = Inr (JStr ''5.1.1'') \<longrightarrow>
         bounce_class (marshallBounceEvent event ts) = Inr (JStr ''Permanent'', JStr ''NoEmail'')) \<and>
      (get event ''status'' = Inr (JStr ''4.2.2'') \<longrightarrow>
         bounce_class (marshallBounceEvent event ts) = Inr (JStr ''Transient'', JStr ''MailboxFull'')) \<and>
      (get event ''status'' = Inr (JStr ''5.2.3'') \<longrightarrow>
         bounce_class (marshallBounceEvent event ts) = Inr (JStr ''Permanent'', JStr ''MessageTooLarge'')) \<and>
      (get event ''status'' = Inr (JStr ''5.6.0'') \<longrightarrow>
         bounce_class (marshallBounceEvent event ts) = Inr (JStr ''Permanent'', JStr ''ContentRejected'')) \<and>
      (\<forall>s. get event ''status'' = Inr (JStr s) \<and> length (split_js ''.'' s) \<noteq> 3 \<longrightarrow>
         bounce_class (marshallBounceEvent event ts) = Inr (JStr ''Transient'', JStr ''General'')) \<and>
      (\<forall>v. get event ''status'' = Inr v \<and> \<not> truthy v \<longrightarrow>
         bounce_class (marshallBounceEvent event ts) = Inr (JStr ''Transient'', JStr ''General'')))
   \<and> (get event ''event'' = Inr (JStr ''dropped'') \<longrightarrow>
         bounce_class (marshallBounceEvent event ts) = Inr (JStr ''Permanent'', JStr ''Suppressed''))"
proof (intro conjI impI allI)
  assume ev: "get event ''event'' = Inr (JStr ''dropped'')"
  then obtain kvs where "event = JObj kvs"
    using get_truthy_obj [OF ev] by auto
  with bounceTypes_dropped [OF ev] show
    "bounce_class (marshallBounceEvent event ts) = Inr (JStr ''Permanent'', JStr ''Suppressed'')"
    by (simp add: bounce_class_marshall or_else_def)
next
  assume ev: "get event ''event'' = Inr (JStr ''bounce'')"
  then obtain kvs where obj: "event = JObj kvs"
    using get_truthy_obj [OF ev] by auto
  have ne: "JStr ''bounce'' \<noteq> JStr ''dropped''" by simp
  note str = bounceTypes_string [OF ev ne]
  {
    assume "get event ''status'' = Inr (JStr ''5.1.1'')"
    from str [OF this] obj show
      "bounce_class (marshallBounceEvent event ts) = Inr (JStr ''Permanent'', JStr ''NoEmail'')"
      by (simp add: split_511 bounce_class_marshall or_else_def mapStatusToBounceSubType_def)
  next
    assume "get event ''status'' = Inr (JStr ''4.2.2'')"
    from str [OF this] obj show
      "bounce_class (marshallBounceEvent event ts) = Inr (JStr ''Transient'', JStr ''MailboxFull'')"
      by (simp add: split_422 bounce_class_marshall or_else_def mapStatusToBounceSubType_def)
  next
    assume "get event ''status'' = Inr (JStr ''5.2.3'')"
    from str [OF this] obj show
      "bounce_class (marshallBounceEvent event ts) = Inr (JStr ''Permanent'', JStr ''MessageTooLarge'')"
      by (simp add: split_523 bounce_class_marshall or_else_def mapStatusToBounceSubType_def)
  next
    assume "get event ''status'' = Inr (JStr ''5.6.0'')"
    from str [OF this] obj show
      "bounce_class (marshallBounceEvent event ts) = Inr (JStr ''Permanent'', JStr ''ContentRejected'')"
      by (simp add: split_560 bounce_class_marshall or_else_def mapStatusToBounceSubType_def)
  next
    fix s
    assume a: "get event ''status'' = Inr (JStr s) \<and> length (split_js ''.'' s) \<noteq> 3"
    show "bounce_class (marshallBounceEvent event ts) = Inr (JStr ''Transient'', JStr ''General'')"
    proof (cases "s = []")
      case True
      with a bounceTypes_falsy [OF ev ne, of "JStr s"] obj show ?thesis
        by (simp add: bounce_class_marshall or_else_def)
    next
      case False
      with a str [of s] obj show ?thesis
        by (simp add: bounce_class_marshall or_else_def)
    qed
  next
    fix v
    assume "get event ''status'' = Inr v \<and> \<not> truthy v"
    with bounceTypes_falsy [OF ev ne, of v] obj show
      "bounce_class (marshallBounceEvent event ts) = Inr (JStr ''Transient'', JStr ''General'')"
      by (simp add: bounce_class_marshall or_else_def)
  }
qed

text \<open>The seven cases of claim C3 on the sample event.\<close>

theorem bounce_mapping_witness:
  "bounce_class (marshallBounceEvent (raw_event ''bounce'' (JStr ''5.1.1'')) ''t'')
     = Inr (JStr ''Permanent'', JStr ''NoEmail'')
   \<and> bounce_class (marshallBounceEvent (raw_event ''bounce'' (JStr ''4.2.2'')) ''t'')
     = Inr (JStr ''Transient'', JStr ''MailboxFull'')
   \<and> bounce_class (marshallBounceEvent (raw_event ''bounce'' (JStr ''5.2.3'')) ''t'')
     = Inr (JStr ''Permanent'', JStr ''MessageTooLarge'')
   \<and> bounce_class (marshallBounceEvent (raw_event ''bounce'' (JStr ''5.6.0'')) ''t'')
     = Inr (JStr ''Permanent'', JStr ''ContentRejected'')
   \<and> bounce_class (marshallBounceEvent (raw_event ''bounce'' (JStr ''5.1'')) ''t'')
     = Inr (JStr ''Transient'', JStr ''General'')
   \<and> bounce_class (marshallBounceEvent (raw_event ''bounce'' JUndefined) ''t'')
     = Inr (JStr ''Transient'', JStr ''General'')
   \<and> bounce_class (marshallBounceEvent (raw_event ''dropped'' (JStr ''4.2.2'')) ''t'')
     = Inr (JStr ''Permanent'', JStr ''Suppressed'')"
proof -
  have s: "length (split_js ''.'' ''5.1'') \<noteq> 3"
    by (simp add: split_js_def)
  show ?thesis
    using bounce_mapping [of "raw_event ''bounce'' (JStr ''5.1.1'')" "''t''"]
      bounce_mapping [of "raw_event ''bounce'' (JStr ''4.2.2'')" "''t''"]
      bounce_mapping [of "raw_event ''bounce'' (JStr ''5.2.3'')" "''t''"]
      bounce_mapping [of "raw_event ''bounce'' (JStr ''5.6.0'')" "''t''"]
      bounce_mapping [of "raw_event ''bounce'' (JStr ''5.1'')" "''t''"]
      bounce_mapping [of "raw_event ''bounce'' JUndefined" "''t''"]
      bounce_mapping [of "raw_event ''dropped'' (JStr ''4.2.2'')" "''t''"] s
    by (simp add: raw_event_def)
qed

lemma path_with_mail_mail: "path (with_mail mail r) (''mail'' # ks) = path mail ks"
  by (simp add: with_mail_def)

lemma path_with_mail_rest:
  "k \<noteq> ''mail'' \<Longrightarrow> path (with_mail mail (JObj kvs)) (k # ks) = path (JObj kvs) (k # ks)"
  by (simp add: with_mail_def)

lemma marshallBounceEvent_Inr:
  assumes "marshallBounceEvent event stamp = Inr r"
  shows "\<exists>bt bst email fid. r = JObj
         [(''notificationType'', JStr ''Bounce''),
          (''bounce'', JObj
            [(''bounceType'', JStr bt),
             (''bounceSubType'', JStr bst),
             (''bouncedRecipients'', JArr [JObj [(''emailAddress'', email)]]),
             (''timestamp'', JStr stamp),
             (''feedbackId'', fid)])]
         \<and> get event ''email'' = Inr email \<and> get event ''sg_event_id'' = Inr fid"
  using assms by (auto simp add: marshallBounceEvent_def andThen_eq_Inr)

lemma marshallDeliveryEvent_Inr:
  assumes "marshallDeliveryEvent event stamp = Inr r"
  shows "\<exists>email response. r = JObj
         [(''notificationType'', JStr ''Delivery''),
          (''delivery'', JObj
            [(''timestamp'', JStr stamp),
             (''recipients'', JArr [email]),
             (''smtpResponse'', response)])]
         \<and> get event ''email'' = Inr email \<and> get event ''response'' = Inr response"
  using assms by (auto simp add: marshallDeliveryEvent_def andThen_eq_Inr)

lemma marshallComplaintEvent_Inr:
  assumes "marshallComplaintEvent event stamp = Inr r"
  shows "\<exists>email fid. r = JObj
         [(''notificationType'', JStr ''Complaint''),
          (''complaint'', JObj
            [(''complainedRecipients'', JArr [JObj [(''emailAddress'', email)]]),
             (''timestamp'', JStr stamp),
             (''feedbackId'', fid)])]
         \<and> get event ''email'' = Inr email \<and> get event ''sg_event_id'' = Inr fid"
  using assms by (auto simp add: marshallComplaintEvent_def andThen_eq_Inr)

text \<open>
  Claim C9. Every notification that \<^verbatim>\<open>marshallEvent\<close> produces carries one and the same
  timestamp string in \<^verbatim>\<open>mail.timestamp\<close> and in the \<^verbatim>\<open>timestamp\<close> of the sub-record that its
  \<^verbatim>\<open>notificationType\<close> names: the result of the one call of \<^verbatim>\<open>mapTimestamp\<close> on the raw
  timestamp, which for a number is the ISO-8601 form of that number times 1000.
\<close>

theorem timestamps_agree:
  assumes "marshallEvent e event = Inr n" and "n \<noteq> JUndefined"
  shows "\<exists>ts stamp nt sub.
           get event ''timestamp'' = Inr ts \<and> mapTimestamp e ts = Inr stamp
         \<and> (\<forall>t. ts = JNum t \<longrightarrow> stamp = iso_format (t * 1000))
         \<and> path n [''mail'', ''timestamp''] = Inr (JStr stamp)
         \<and> path n [''notificationType''] = Inr (JStr nt)
         \<and> (nt, sub) \<in> {(''Bounce'', ''bounce''), (''Delivery'', ''delivery''),
                          (''Complaint'', ''complaint'')}
         \<and> path n [sub, ''timestamp''] = Inr (JStr stamp)"
proof -
  from marshallEvent_produced [OF assms] obtain ts mid ev stamp mail r where
    ts: "get event ''timestamp'' = Inr ts" and stamp: "mapTimestamp e ts = Inr stamp"
    and mail: "marshallMailObject event stamp = Inr mail" and n: "n = with_mail mail r"
    and r: "(ev = JStr BOUNCE \<or> ev = JStr DROPPED) \<and> marshallBounceEvent event stamp = Inr r
            \<or> ev = JStr DELIVERED \<and> marshallDeliveryEvent event stamp = Inr r
            \<or> ev = JStr SPAM \<and> marshallComplaintEvent event stamp = Inr r"
    by blast
  from mail obtain m where "get event ''sg_message_id'' = Inr (JStr m)"
    using marshallMailObject_Inr by blast
  then have mail_ts: "path n [''mail'', ''timestamp''] = Inr (JStr stamp)"
    using mail n by (auto simp add: marshallMailObject_string with_mail_def)
  have num: "\<forall>t. ts = JNum t \<longrightarrow> stamp = iso_format (t * 1000)"
    using stamp by (auto simp add: mapTimestamp_num split: if_splits)
  from r consider
      (bounce) "marshallBounceEvent event stamp = Inr r"
    | (delivery) "marshallDeliveryEvent event stamp = Inr r"
    | (complaint) "marshallComplaintEvent event stamp = Inr r"
    by blast
  then have "\<exists>nt sub. path n [''notificationType''] = Inr (JStr nt)
         \<and> (nt, sub) \<in> {(''Bounce'', ''bounce''), (''Delivery'', ''delivery''),
                          (''Complaint'', ''complaint'')}
         \<and> path n [sub, ''timestamp''] = Inr (JStr stamp)"
  proof cases
    case bounce
    from marshallBounceEvent_Inr [OF this] n
    have "path n [''notificationType''] = Inr (JStr ''Bounce'')
        \<and> path n [''bounce'', ''timestamp''] = Inr (JStr stamp)"
      by (auto simp add: with_mail_def)
    then show ?thesis by blast
  next
    case delivery
    from marshallDeliveryEvent_Inr [OF this] n
    have "path n [''notificationType''] = Inr (JStr ''Delivery'')
        \<and> path n [''delivery'', ''timestamp''] = Inr (JStr stamp)"
      by (auto simp add: with_mail_def)
    then show ?thesis by blast
  next
    case complaint
    from marshallComplaintEvent_Inr [OF this] n
    have "path n [''notificationType''] = Inr (JStr ''Complaint'')
        \<and> path n [''complaint'', ''timestamp''] = Inr (JStr stamp)"
      by (auto simp add: with_mail_def)
    then show ?thesis by blast
  qed
  with ts stamp num mail_ts show ?thesis by blast
qed

lemma stamp_2021: "iso_format 1609459200000 = ''2021-01-01T00:00:00.000Z''"
  by code_simp

lemma marshallEvent_sample_delivered:
  "marshallEvent quiet_env (raw_event ''delivered'' JUndefined) = Inr sample_delivery"
  by code_simp

text \<open>Claim C9 on the sample event reporting a delivery.\<close>

theorem timestamps_agree_witness:
  "marshallEvent quiet_env (raw_event ''delivered'' JUndefined) = Inr sample_delivery
   \<and> sample_delivery \<noteq> JUndefined
   \<and> path sample_delivery [''mail'', ''timestamp''] = Inr (JStr ''2021-01-01T00:00:00.000Z'')
   \<and> path sample_delivery [''delivery'', ''timestamp''] = Inr (JStr ''2021-01-01T00:00:00.000Z'')"
proof -
  let ?ev = "raw_event ''delivered'' JUndefined"
  have n: "marshallEvent quiet_env ?ev = Inr sample_delivery" and u: "sample_delivery \<noteq> JUndefined"
    by (simp add: marshallEvent_sample_delivered) (simp add: sample_delivery_def)
  have "get ?ev ''timestamp'' = Inr (JNum 1609459200)"
    by (simp add: raw_event_def)
  with timestamps_agree [OF n u] have
    "path sample_delivery [''mail'', ''timestamp''] = Inr (JStr (iso_format (1609459200 * 1000)))"
    by auto
  then have "path sample_delivery [''mail'', ''timestamp''] = Inr (JStr ''2021-01-01T00:00:00.000Z'')"
    by (simp add: stamp_2021)
  with n u show ?thesis
    by (simp add: sample_delivery_def)
qed


lemma missing_absent:
  "missing event ''timestamp'' \<or> missing event ''sg_message_id'' \<or> missing event ''event''
     \<Longrightarrow> marshallEvent e event = Inr JUndefined"
  by (cases event) (auto simp add: missing_def marshallEvent_def split: sum.splits option.splits)

lemma marshallEvent_other:
  assumes "get event ''event'' = Inr ev"
    and "ev \<notin> {JStr ''bounce'', JStr ''delivered'', JStr ''dropped'', JStr ''spamreport''}"
    and "get event ''timestamp'' = Inr ts" and "mapTimestamp e ts = Inr stamp"
    and "get event ''sg_message_id'' = Inr (JStr m)"
  shows "marshallEvent e event = Inr JUndefined"
  using assms
  by (simp add: marshallEvent_def marshallMailObject_string BOUNCE_def DROPPED_def
      DELIVERED_def SPAM_def)

text \<open>
  Claim C4, amended. When one of \<^verbatim>\<open>timestamp\<close>, \<^verbatim>\<open>sg_message_id\<close>, \<^verbatim>\<open>event\<close> is missing or
  falsy, \<^verbatim>\<open>marshallEvent\<close> returns \<^verbatim>\<open>undefined\<close> and throws nothing. When the \<^verbatim>\<open>event\<close> value is
  none of \<^verbatim>\<open>bounce\<close>, \<^verbatim>\<open>delivered\<close>, \<^verbatim>\<open>dropped\<close>, \<^verbatim>\<open>spamreport\<close>, it does so provided that
  the timestamp converts to a date and \<^verbatim>\<open>sg_message_id\<close> is a string: both are computed
  before the event value is looked at.
\<close>

theorem marshallEvent_absent:
  "(missing event ''timestamp'' \<or> missing event ''sg_message_id'' \<or> missing event ''event''
      \<longrightarrow> marshallEvent e event = Inr JUndefined)
   \<and> (get event ''event'' = Inr ev
      \<and> ev \<notin> {JStr ''bounce'', JStr ''delivered'', JStr ''dropped'', JStr ''spamreport''}
      \<and> get event ''timestamp'' = Inr ts \<and> mapTimestamp e ts = Inr stamp
      \<and> get event ''sg_message_id'' = Inr (JStr m)
      \<longrightarrow> marshallEvent e event = Inr JUndefined)"
  using missing_absent [of event e] marshallEvent_other [of event ev ts e stamp m] by blast

text \<open>Claim C4, amended, on an event without \<^verbatim>\<open>event\<close> and on one of an unknown kind.\<close>

theorem marshallEvent_absent_witness:
  "marshallEvent quiet_env
       (JObj [(''timestamp'', JNum 1609459200), (''sg_message_id'', JStr ''14c5d75ce93'')])
     = Inr JUndefined
   \<and> marshallEvent quiet_env (raw_event ''open'' JUndefined)
     = Inr JUndefined"
proof -
  let ?e = "quiet_env"
  let ?a = "JObj [(''timestamp'', JNum 1609459200), (''sg_message_id'', JStr ''14c5d75ce93'')]"
  let ?b = "raw_event ''open'' JUndefined"
  have a: "missing ?a ''event''"
    by (simp add: missing_def)
  have b: "get ?b ''event'' = Inr (JStr ''open'')
      \<and> JStr ''open'' \<notin> {JStr ''bounce'', JStr ''delivered'', JStr ''dropped'', JStr ''spamreport''}
      \<and> get ?b ''timestamp'' = Inr (JNum 1609459200)
      \<and> mapTimestamp ?e (JNum 1609459200) = Inr ''2021-01-01T00:00:00.000Z''
      \<and> get ?b ''sg_message_id''
           = Inr (JStr ''14c5d75ce93.dfd.64b469.filter0001.16648.5515E0B88.0'')"
    by (simp add: raw_event_def mapTimestamp_num stamp_2021)
  have "marshallEvent ?e ?a = Inr JUndefined"
    using a marshallEvent_absent [where event = ?a and e = ?e] by simp
  moreover have "marshallEvent ?e ?b = Inr JUndefined"
    using b marshallEvent_absent [where event = ?b and ev = "JStr ''open''"
        and ts = "JNum 1609459200" and e = ?e and stamp = "''2021-01-01T00:00:00.000Z''"
        and m = "''14c5d75ce93.dfd.64b469.filter0001.16648.5515E0B88.0''"]
    by simp
  ultimately show ?thesis by simp
qed

text \<open>
  Claim C4 as it was stated fails: an event of an unknown kind whose timestamp is an
  integer too large for a date is not dropped, \<^verbatim>\<open>toISOString\<close> throws a RangeError.
\<close>

theorem unknown_event_throws:
  "get (late_event ''open'') ''event'' = Inr (JStr ''open'')
   \<and> JStr ''open'' \<notin> {JStr ''bounce'', JStr ''delivered'', JStr ''dropped'', JStr ''spamreport''}
   \<and> marshallEvent quiet_env (late_event ''open'')
       = Inl RangeError"
  by (simp add: late_event_def marshallEvent_def mapTimestamp_num)

text \<open>
  Claim C5. In every notification that \<^verbatim>\<open>marshallEvent\<close> produces, \<^verbatim>\<open>mail.messageId\<close> is the
  part of \<^verbatim>\<open>sg_message_id\<close> strictly before the first occurrence of \<^verbatim>\<open>.filter\<close>: a prefix,
  followed by \<^verbatim>\<open>.filter\<close> when that occurs at all, with no occurrence starting earlier; it
  is the whole \<^verbatim>\<open>sg_message_id\<close> when \<^verbatim>\<open>.filter\<close> does not occur. The id
  \<^verbatim>\<open>14c5d75ce93.dfd.64b469.filter0001.16648.5515E0B88.0\<close> gives \<^verbatim>\<open>14c5d75ce93.dfd.64b469\<close>.
\<close>

theorem messageId_before_filter:
  "(marshallEvent e event = Inr n \<and> n \<noteq> JUndefined \<longrightarrow>
      (\<exists>m p. get event ''sg_message_id'' = Inr (JStr m)
           \<and> path n [''mail'', ''messageId''] = Inr (JStr p)
           \<and> p = before_first ''.filter'' m
           \<and> take (length p) m = p
           \<and> (\<forall>j<length p. \<not> occurs_at ''.filter'' m j)
           \<and> ((\<exists>i. occurs_at ''.filter'' m i) \<longrightarrow> occurs_at ''.filter'' m (length p))
           \<and> ((\<forall>i. \<not> occurs_at ''.filter'' m i) \<longrightarrow> p = m)))
   \<and> marshallMailObject
         (JObj [(''sg_message_id'', JStr ''14c5d75ce93.dfd.64b469.filter0001.16648.5515E0B88.0'')]) ts
       = Inr (JObj [(''timestamp'', JStr ts), (''messageId'', JStr ''14c5d75ce93.dfd.64b469'')])"
proof (intro conjI impI)
  show "marshallMailObject
         (JObj [(''sg_message_id'', JStr ''14c5d75ce93.dfd.64b469.filter0001.16648.5515E0B88.0'')]) ts
       = Inr (JObj [(''timestamp'', JStr ts), (''messageId'', JStr ''14c5d75ce93.dfd.64b469'')])"
    by (simp add: marshallMailObject_string)
next
  assume a: "marshallEvent e event = Inr n \<and> n \<noteq> JUndefined"
  then obtain stamp mail r where mail: "marshallMailObject event stamp = Inr mail"
    and n: "n = with_mail mail r"
    using marshallEvent_produced [of e event n] by blast
  from mail obtain m where m: "get event ''sg_message_id'' = Inr (JStr m)"
    using marshallMailObject_Inr by blast
  let ?p = "before_first ''.filter'' m"
  have "path n [''mail'', ''messageId''] = Inr (JStr ?p)"
    using mail n m by (auto simp add: marshallMailObject_string with_mail_def)
  moreover have "take (length ?p) m = ?p"
    by (rule before_first_prefix)
  moreover have "\<forall>j<length ?p. \<not> occurs_at ''.filter'' m j"
    using before_first_none_earlier by blast
  moreover have "(\<exists>i. occurs_at ''.filter'' m i) \<longrightarrow> occurs_at ''.filter'' m (length ?p)"
    using before_first_occurs [of "''.filter''" m] by auto
  moreover have "(\<forall>i. \<not> occurs_at ''.filter'' m i) \<longrightarrow> ?p = m"
    using before_first_absent [of "''.filter''" m] by blast
  ultimately show "\<exists>m p. get event ''sg_message_id'' = Inr (JStr m)
           \<and> path n [''mail'', ''messageId''] = Inr (JStr p)
           \<and> p = before_first ''.filter'' m
           \<and> take (length p) m = p
           \<and> (\<forall>j<length p. \<not> occurs_at ''.filter'' m j)
           \<and> ((\<exists>i. occurs_at ''.filter'' m i) \<longrightarrow> occurs_at ''.filter'' m (length p))
           \<and> ((\<forall>i. \<not> occurs_at ''.filter'' m i) \<longrightarrow> p = m)"
    using m by blast
qed

text \<open>Claim C5 on the sample event.\<close>

theorem messageId_before_filter_witness:
  "marshallEvent quiet_env (raw_event ''delivered'' JUndefined) = Inr sample_delivery
   \<and> sample_delivery \<noteq> JUndefined
   \<and> path sample_delivery [''mail'', ''messageId''] = Inr (JStr ''14c5d75ce93.dfd.64b469'')"
proof -
  let ?ev = "raw_event ''delivered'' JUndefined"
  have n: "marshallEvent quiet_env ?ev = Inr sample_delivery \<and> sample_delivery \<noteq> JUndefined"
    by (simp add: marshallEvent_sample_delivered) (simp add: sample_delivery_def)
  have m: "get ?ev ''sg_message_id''
      = Inr (JStr ''14c5d75ce93.dfd.64b469.filter0001.16648.5515E0B88.0'')"
    by (simp add: raw_event_def)
  have "before_first ''.filter'' ''14c5d75ce93.dfd.64b469.filter0001.16648.5515E0B88.0''
      = ''14c5d75ce93.dfd.64b469''"
    by simp
  with n m show ?thesis
    using messageId_before_filter [of quiet_env ?ev sample_delivery] by auto
qed

lemma bounceTypes_total:
  assumes "get event ''event'' = Inr ev" and "get event ''status'' = Inr s"
    and "ev = JStr ''dropped'' \<or> \<not> truthy s \<or> (\<exists>x. s = JStr x)"
  shows "\<exists>bt bst. bounceTypes event = Inr (bt, bst)"
proof (cases "ev = JStr ''dropped''")
  case True
  with assms(1) have "get event ''event'' = Inr (JStr ''dropped'')" by simp
  from bounceTypes_dropped [OF this] show ?thesis by simp
next
  case nd: False
  show ?thesis
  proof (cases "truthy s")
    case False
    from bounceTypes_falsy [OF assms(1) nd assms(2) False] show ?thesis by simp
  next
    case True
    from assms(3) nd True have "\<exists>x. s = JStr x" by simp
    then obtain x where x: "s = JStr x" ..
    with True have ne: "x \<noteq> []" by simp
    show ?thesis
      unfolding bounceTypes_string [OF assms(1) nd assms(2) [unfolded x] ne] Let_def
      by (cases "length (split_js ''.'' x) = 3") simp_all
  qed
qed

text \<open>
  Claim C10, amended. For an event whose \<^verbatim>\<open>timestamp\<close> is a non-zero number that, times 1000,
  is a time value of a valid date (at most 8640000000000000 in absolute value), whose
  \<^verbatim>\<open>sg_message_id\<close> is a non-empty string and whose \<^verbatim>\<open>event\<close> is truthy, with a \<^verbatim>\<open>status\<close> that,
  when present and truthy on a bounce event, is a string, \<^verbatim>\<open>marshallEvent\<close> never throws.
  Nothing is asked of \<^verbatim>\<open>email\<close>, \<^verbatim>\<open>response\<close>, \<^verbatim>\<open>sg_event_id\<close> and \<^verbatim>\<open>status\<close>: the output
  fields carry what the event holds for them, which is \<^verbatim>\<open>undefined\<close> when they are absent.
\<close>

theorem marshallEvent_returns:
  assumes "get event ''timestamp'' = Inr (JNum t)" and "t \<noteq> 0"
    and "\<bar>t * 1000\<bar> \<le> 8640000000000000"
    and "get event ''sg_message_id'' = Inr (JStr m)" and "m \<noteq> []"
    and "get event ''event'' = Inr ev" and "truthy ev"
    and "ev = JStr ''bounce'' \<longrightarrow>
           (\<exists>s. get event ''status'' = Inr s \<and> (truthy s \<longrightarrow> (\<exists>x. s = JStr x)))"
  shows "\<exists>n email response feedbackId.
           marshallEvent e event = Inr n
         \<and> get event ''email'' = Inr email \<and> get event ''response'' = Inr response
         \<and> get event ''sg_event_id'' = Inr feedbackId
         \<and> (ev = JStr ''bounce'' \<or> ev = JStr ''dropped'' \<longrightarrow>
               path n [''bounce'', ''bouncedRecipients'']
                 = Inr (JArr [JObj [(''emailAddress'', email)]])
             \<and> path n [''bounce'', ''feedbackId''] = Inr feedbackId)
         \<and> (ev = JStr ''delivered'' \<longrightarrow>
               path n [''delivery'', ''recipients''] = Inr (JArr [email])
             \<and> path n [''delivery'', ''smtpResponse''] = Inr response)
         \<and> (ev = JStr ''spamreport'' \<longrightarrow>
               path n [''complaint'', ''complainedRecipients'']
                 = Inr (JArr [JObj [(''emailAddress'', email)]])
             \<and> path n [''complaint'', ''feedbackId''] = Inr feedbackId)"
proof -
  from assms(1,2) obtain kvs where obj: "event = JObj kvs"
    using get_truthy_obj [of event "''timestamp''" "JNum t"] by auto
  then obtain email response feedbackId s where f: "get event ''email'' = Inr email"
    "get event ''response'' = Inr response" "get event ''sg_event_id'' = Inr feedbackId"
    "get event ''status'' = Inr s"
    by simp
  let ?stamp = "iso_format (t * 1000)"
  let ?mail = "JObj [(''timestamp'', JStr ?stamp), (''messageId'', JStr (before_first ''.filter'' m))]"
  have st: "mapTimestamp e (JNum t) = Inr ?stamp"
    using assms(3) by (simp add: mapTimestamp_num)
  have ml: "marshallMailObject event ?stamp = Inr ?mail"
    using assms(4) by (rule marshallMailObject_string)
  have unfold: "marshallEvent e event =
      (if ev = JStr BOUNCE \<or> ev = JStr DROPPED then
         andThen (marshallBounceEvent event ?stamp) (\<lambda>r. Inr (with_mail ?mail r))
       else if ev = JStr DELIVERED then
         andThen (marshallDeliveryEvent event ?stamp) (\<lambda>r. Inr (with_mail ?mail r))
       else if ev = JStr SPAM then
         andThen (marshallComplaintEvent event ?stamp) (\<lambda>r. Inr (with_mail ?mail r))
       else Inr JUndefined)"
    using assms(1,2,4,5,6,7) obj st ml by (simp add: marshallEvent_def)
  let ?P = "\<lambda>n. (ev = JStr ''bounce'' \<or> ev = JStr ''dropped'' \<longrightarrow>
               path n [''bounce'', ''bouncedRecipients'']
                 = Inr (JArr [JObj [(''emailAddress'', email)]])
             \<and> path n [''bounce'', ''feedbackId''] = Inr feedbackId)
         \<and> (ev = JStr ''delivered'' \<longrightarrow>
               path n [''delivery'', ''recipients''] = Inr (JArr [email])
             \<and> path n [''delivery'', ''smtpResponse''] = Inr response)
         \<and> (ev = JStr ''spamreport'' \<longrightarrow>
               path n [''complaint'', ''complainedRecipients'']
                 = Inr (JArr [JObj [(''emailAddress'', email)]])
             \<and> path n [''complaint'', ''feedbackId''] = Inr feedbackId)"
  have "\<exists>n. marshallEvent e event = Inr n \<and> ?P n"
  proof (cases "ev = JStr ''bounce'' \<or> ev = JStr ''dropped''")
    case bounce: True
    have "ev = JStr ''dropped'' \<or> \<not> truthy s \<or> (\<exists>x. s = JStr x)"
      using bounce assms(8) f(4) by auto
    from bounceTypes_total [OF assms(6) f(4) this] obtain bt bst where
      "bounceTypes event = Inr (bt, bst)" by blast
    with bounce f unfold have "marshallEvent e event = Inr (with_mail ?mail (JObj
         [(''notificationType'', JStr ''Bounce''),
          (''bounce'', JObj
            [(''bounceType'', JStr (or_else bt ''Transient'')),
             (''bounceSubType'', JStr (or_else bst ''General'')),
             (''bouncedRecipients'', JArr [JObj [(''emailAddress'', email)]]),
             (''timestamp'', JStr ?stamp),
             (''feedbackId'', feedbackId)])]))"
      by (simp add: marshallBounceEvent_def BOUNCE_def DROPPED_def)
    moreover from bounce have "ev \<noteq> JStr ''delivered''" and "ev \<noteq> JStr ''spamreport''"
      by auto
    ultimately show ?thesis
      by (simp add: with_mail_def)
  next
    case nb: False
    show ?thesis
    proof (cases "ev = JStr ''delivered''")
      case True
      with f unfold have "marshallEvent e event = Inr (with_mail ?mail (JObj
         [(''notificationType'', JStr ''Delivery''),
          (''delivery'', JObj
            [(''timestamp'', JStr ?stamp),
             (''recipients'', JArr [email]),
             (''smtpResponse'', response)])]))"
        by (simp add: marshallDeliveryEvent_def BOUNCE_def DROPPED_def DELIVERED_def)
      with True show ?thesis
        by (simp add: with_mail_def)
    next
      case nd: False
      show ?thesis
      proof (cases "ev = JStr ''spamreport''")
        case True
        with f unfold have "marshallEvent e event = Inr (with_mail ?mail (JObj
         [(''notificationType'', JStr ''Complaint''),
          (''complaint'', JObj
            [(''complainedRecipients'', JArr [JObj [(''emailAddress'', email)]]),
             (''timestamp'', JStr ?stamp),
             (''feedbackId'', feedbackId)])]))"
          by (simp add: marshallComplaintEvent_def BOUNCE_def DROPPED_def DELIVERED_def SPAM_def)
        with True show ?thesis
          by (simp add: with_mail_def)
      next
        case False
        with nb nd unfold have "marshallEvent e event = Inr JUndefined"
          by (simp add: BOUNCE_def DROPPED_def DELIVERED_def SPAM_def)
        with nb nd False show ?thesis
          by simp
      qed
    qed
  qed
  then obtain n where n: "marshallEvent e event = Inr n \<and> ?P n" ..
  show ?thesis
    by (rule exI [of _ n], rule exI [of _ email], rule exI [of _ response],
        rule exI [of _ feedbackId]) (use f(1,2,3) n in simp)
qed

text \<open>
  Claim C10 as it was stated fails: the three required fields are present and truthy,
  \<^verbatim>\<open>sg_message_id\<close> is a string, and \<^verbatim>\<open>marshallEvent\<close> throws a RangeError, because the
  timestamp is an integer too large for a date.
\<close>

theorem large_timestamp_throws:
  "get (late_event ''delivered'') ''timestamp'' = Inr (JNum 8640000000001)
   \<and> get (late_event ''delivered'') ''sg_message_id''
       = Inr (JStr ''14c5d75ce93.dfd.64b469.filter0001.16648.5515E0B88.0'')
   \<and> get (late_event ''delivered'') ''event'' = Inr (JStr ''delivered'')
   \<and> marshallEvent quiet_env (late_event ''delivered'') = Inl RangeError"
  by (simp add: late_event_def marshallEvent_def mapTimestamp_num)

text \<open>Claim C10, amended, on the sample event, which has no \<^verbatim>\<open>response\<close>.\<close>

theorem marshallEvent_returns_witness:
  "marshallEvent quiet_env (raw_event ''delivered'' JUndefined) = Inr sample_delivery
   \<and> get (raw_event ''delivered'' JUndefined) ''response'' = Inr JUndefined
   \<and> path sample_delivery [''delivery'', ''smtpResponse''] = Inr JUndefined
   \<and> path sample_delivery [''delivery'', ''recipients''] = Inr (JArr [JStr ''user@example.com''])"
proof -
  let ?ev = "raw_event ''delivered'' JUndefined"
  have "get ?ev ''timestamp'' = Inr (JNum 1609459200)" and "(1609459200 :: int) \<noteq> 0"
    and "\<bar>1609459200 * 1000 :: int\<bar> \<le> 8640000000000000"
    and "get ?ev ''sg_message_id''
          = Inr (JStr ''14c5d75ce93.dfd.64b469.filter0001.16648.5515E0B88.0'')"
    and "''14c5d75ce93.dfd.64b469.filter0001.16648.5515E0B88.0'' \<noteq> []"
    and "get ?ev ''event'' = Inr (JStr ''delivered'')" and "truthy (JStr ''delivered'')"
    and "JStr ''delivered'' = JStr ''bounce'' \<longrightarrow>
           (\<exists>s. get ?ev ''status'' = Inr s \<and> (truthy s \<longrightarrow> (\<exists>x. s = JStr x)))"
    by (simp_all add: raw_event_def)
  from marshallEvent_returns [OF this, of quiet_env] show ?thesis
    by (simp add: marshallEvent_sample_delivered) (simp add: raw_event_def)
qed

section \<open>The dispatcher\<close>

lemma sendEvent_truthy:
  "truthy event \<Longrightarrow> \<exists>queue. sendEvent cfg e i event = Inr ((queue, event), pushAsync e i queue event)"
  by (cases event) (simp_all add: sendEvent_def Let_def)

lemma sendEvents_quiet:
  assumes "\<forall>x\<in>set xs. truthy x" and "\<forall>i queue message. pushAsync e i queue message = None"
  shows "\<exists>made. sendEvents cfg e i xs = (Inr (replicate (length xs) None), made)
           \<and> map snd made = xs"
  using assms(1)
proof (induction xs arbitrary: i)
  case Nil
  then show ?case by simp
next
  case (Cons x xs)
  then obtain queue where "sendEvent cfg e i x = Inr ((queue, x), pushAsync e i queue x)"
    using sendEvent_truthy [of x cfg e i] by auto
  with assms(2) have x: "sendEvent cfg e i x = Inr ((queue, x), None)" by simp
  from Cons obtain made where "sendEvents cfg e (Suc i) xs = (Inr (replicate (length xs) None), made)"
    and "map snd made = xs"
    by fastforce
  with x show ?case by simp
qed

lemma Promise_all_fulfilled:
  "Promise_all (replicate n None) = Inr (replicate n JUndefined)"
  by (induction n) simp_all

lemma Promise_all_rejected: "Some err \<in> set os \<Longrightarrow> \<exists>err'. Promise_all os = Inl err'"
proof (induction os rule: Promise_all.induct)
  case (2 os)
  then show ?case by (cases "Promise_all os") auto
qed simp_all

lemma sendEvents_rejected:
  assumes "\<forall>x\<in>set xs. truthy x" and "j < length xs"
    and "sendEvent cfg e (i + j) (xs ! j) = Inr (c, Some err)"
  shows "\<exists>os made. sendEvents cfg e i xs = (Inr os, made) \<and> Some err \<in> set os
           \<and> map snd made = xs"
  using assms
proof (induction xs arbitrary: i j)
  case Nil
  then show ?case by simp
next
  case (Cons x xs)
  from Cons.prems(1) obtain queue where x: "sendEvent cfg e i x = Inr ((queue, x), pushAsync e i queue x)"
    using sendEvent_truthy [of x cfg e i] by auto
  show ?case
  proof (cases j)
    case 0
    with Cons.prems(3) x have here: "pushAsync e i queue x = Some err" by simp
    from Cons.prems(1) have "\<forall>y\<in>set xs. truthy y" by simp
    have "\<exists>os made. sendEvents cfg e (Suc i) xs = (os, made) \<and> map snd made = xs
            \<and> (\<exists>l. os = Inr l)"
      using \<open>\<forall>y\<in>set xs. truthy y\<close>
    proof (induction xs arbitrary: i)
      case Nil
      then show ?case by simp
    next
      case (Cons y ys)
      then obtain q where "sendEvent cfg e (Suc i) y = Inr ((q, y), pushAsync e (Suc i) q y)"
        using sendEvent_truthy [of y cfg e "Suc i"] by auto
      moreover from Cons obtain os made where "sendEvents cfg e (Suc (Suc i)) ys = (os, made)"
        and "map snd made = ys" and "\<exists>l. os = Inr l"
        by fastforce
      ultimately show ?case by auto
    qed
    then obtain l made where "sendEvents cfg e (Suc i) xs = (Inr l, made)" and "map snd made = xs"
      by auto
    with x here show ?thesis by simp
  next
    case (Suc j')
    with Cons.prems have "\<forall>y\<in>set xs. truthy y" and "j' < length xs"
      and "sendEvent cfg e (Suc i + j') (xs ! j') = Inr (c, Some err)"
      by simp_all
    from Cons.IH [OF this] obtain os made where
      "sendEvents cfg e (Suc i) xs = (Inr os, made)" and "Some err \<in> set os" and "map snd made = xs"
      by blast
    with x show ?thesis by simp
  qed
qed

lemma mapE_Inl: "x \<in> set xs \<Longrightarrow> f x = Inl err \<Longrightarrow> \<exists>err'. mapE f xs = Inl err'"
proof (induction xs)
  case Nil
  then show ?case by simp
next
  case (Cons y ys)
  show ?case
  proof (cases "f y")
    case (Inl a)
    then show ?thesis by simp
  next
    case (Inr b)
    show ?thesis
    proof (cases "x = y")
      case True
      with Cons.prems Inr show ?thesis by simp
    next
      case False
      with Cons obtain err' where "mapE f ys = Inl err'" by auto
      with Inr show ?thesis by simp
    qed
  qed
qed

lemma processEvents_quiet:
  assumes "mapE (marshallEvent e) events = Inr marshalled"
    and "\<forall>i queue message. pushAsync e i queue message = None"
  shows "\<exists>made. processEvents cfg e events
            = (Inr (replicate (length (filter truthy marshalled)) JUndefined), made)
          \<and> map snd made = filter truthy marshalled"
proof -
  have "\<forall>x\<in>set (filter truthy marshalled). truthy x" by simp
  from sendEvents_quiet [OF this assms(2), of cfg 0] obtain made where
    "sendEvents cfg e 0 (filter truthy marshalled)
       = (Inr (replicate (length (filter truthy marshalled)) None), made)"
    and "map snd made = filter truthy marshalled"
    by blast
  with assms(1) show ?thesis
    by (simp add: processEvents_def Promise_all_fulfilled)
qed

lemma processEvents_rejected:
  assumes "mapE (marshallEvent e) events = Inr marshalled"
    and "i < length (filter truthy marshalled)"
    and "sendEvent cfg e i (filter truthy marshalled ! i) = Inr (c, Some err)"
  shows "\<exists>err' made. processEvents cfg e events = (Inl err', made)
          \<and> map snd made = filter truthy marshalled"
proof -
  have "\<forall>x\<in>set (filter truthy marshalled). truthy x" by simp
  from sendEvents_rejected [OF this assms(2), of cfg e 0 c err] assms(3) obtain os made where
    "sendEvents cfg e 0 (filter truthy marshalled) = (Inr os, made)" and "Some err \<in> set os"
    and "map snd made = filter truthy marshalled"
    by auto
  moreover from Promise_all_rejected [OF \<open>Some err \<in> set os\<close>] obtain err' where
    "Promise_all os = Inl err'" ..
  ultimately show ?thesis
    using assms(1) by (simp add: processEvents_def)
qed

lemma processEvents_throws:
  assumes "x \<in> set events" and "marshallEvent e x = Inl err"
  shows "\<exists>err'. processEvents cfg e events = (Inl err', [])"
proof -
  from mapE_Inl [of x events "marshallEvent e" err] assms obtain err' where "mapE (marshallEvent e) events = Inl err'"
    by auto
  then show ?thesis by (simp add: processEvents_def)
qed

section \<open>The request handler\<close>

lemma gateway_no_query:
  assumes "get data ''body'' = Inr b" and "truthy b"
    and "get data ''queryStringParameters'' = Inr q" and "\<not> truthy q"
  shows "gateway cfg e data = Inr (Inl unauthorized)"
  using assms by (simp add: gateway_def)

lemma gateway_authenticate:
  assumes "get data ''body'' = Inr b" and "truthy b"
    and "get data ''queryStringParameters'' = Inr q" and "truthy q"
    and "get q ''auth'' = Inr a"
  shows "gateway cfg e data =
           (case authenticate cfg a of
              Inl err \<Rightarrow> Inl err
            | Inr ok \<Rightarrow> if ok then andThen (JSON_parse e b) (\<lambda>parsed. Inr (Inr parsed))
                        else Inr (Inl unauthorized))"
  using assms by (simp add: gateway_def andThen_def split: sum.splits)

lemma gateway_direct:
  assumes "get data ''body'' = Inr b" and "\<not> truthy b"
  shows "gateway cfg e data = Inr (Inr data)"
  using assms by (simp add: gateway_def)

text \<open>
  A request with a body is answered with 401 and without any push when it has no query
  parameters at all, and when \<^verbatim>\<open>authenticate\<close> returns false on its \<^verbatim>\<open>auth\<close> parameter.
\<close>

lemma main_unauthorized:
  assumes "get data ''body'' = Inr b" and "truthy b"
    and "get data ''queryStringParameters'' = Inr q"
    and "\<not> truthy q \<or> (\<exists>a. get q ''auth'' = Inr a \<and> authenticate cfg a = Inr False)"
  shows "main cfg e data = (unauthorized, [])"
proof (cases "truthy q")
  case False
  from gateway_no_query [OF assms(1,2,3) False] show ?thesis
    by (simp add: main_def)
next
  case True
  with assms(4) obtain a where "get q ''auth'' = Inr a" and "authenticate cfg a = Inr False"
    by auto
  with gateway_authenticate [OF assms(1,2,3) True, of a cfg e] show ?thesis
    by (simp add: main_def)
qed

text \<open>
  Claim C1, at the input where the code departs from it: a request with a body and a query
  string that has parameters, but no \<^verbatim>\<open>auth\<close>. The claim expects statusCode 401 and the body
  \<^verbatim>\<open>Unauthorized\<close>. The code calls \<^verbatim>\<open>authenticate(undefined)\<close>, \<^verbatim>\<open>hash.update\<close> throws a TypeError,
  the \<^verbatim>\<open>catch\<close> of \<^verbatim>\<open>main\<close> answers 500 and \<^verbatim>\<open>Internal Server Error\<close>. No push is issued.
\<close>

theorem missing_auth_parameter:
  "main cfg e (request ''[...]'' [(''foo'', JStr ''bar'')])
     = (\<lparr>statusCode = 500, body = ''Internal Server Error'', isBase64Encoded = False\<rparr>, [])"
proof -
  let ?data = "request ''[...]'' [(''foo'', JStr ''bar'')]"
  have "get ?data ''body'' = Inr (JStr ''[...]'')" and "truthy (JStr ''[...]'')"
    and "get ?data ''queryStringParameters'' = Inr (JObj [(''foo'', JStr ''bar'')])"
    and "truthy (JObj [(''foo'', JStr ''bar'')])"
    and "get (JObj [(''foo'', JStr ''bar'')]) ''auth'' = Inr JUndefined"
    by (simp_all add: request_def)
  from gateway_authenticate [OF this, of cfg e] have "gateway cfg e ?data = Inl TypeError"
    by (simp add: authenticate_other)
  then show ?thesis by (simp add: main_def internal_error_def)
qed

text \<open>
  Claim C6. When the request passes the gateway, no event makes the normalizer throw and
  every push succeeds, the handler answers with statusCode 200 and the body
  \<^verbatim>\<open>Processed n events\<close>, where \<open>n\<close> is the number of events that survived normalization, and
  the pushes issued are exactly these \<open>n\<close> notifications, in order.
\<close>

theorem main_success:
  assumes "gateway cfg e data = Inr (Inr d)"
    and "mapE (marshallEvent e) (as_batch d) = Inr marshalled"
    and "\<forall>i queue message. pushAsync e i queue message = None"
  shows "fst (main cfg e data)
           = \<lparr>statusCode = 200,
              body = ''Processed '' @ decimal (length (filter truthy marshalled)) @ '' events'',
              isBase64Encoded = False\<rparr>
       \<and> map snd (snd (main cfg e data)) = filter truthy marshalled
       \<and> length (snd (main cfg e data)) = length (filter truthy marshalled)"
proof -
  from processEvents_quiet [OF assms(2,3), of cfg] obtain made where
    "processEvents cfg e (as_batch d)
       = (Inr (replicate (length (filter truthy marshalled)) JUndefined), made)"
    and made: "map snd made = filter truthy marshalled"
    by blast
  with assms(1) have "main cfg e data = (processed (length (filter truthy marshalled)), made)"
    by (simp add: main_def)
  moreover from made have "length made = length (filter truthy marshalled)"
    by (metis length_map)
  ultimately show ?thesis
    using made by (simp add: processed_def)
qed

text \<open>
  Claim C7. The handler answers with statusCode 500 and the fixed body
  \<^verbatim>\<open>Internal Server Error\<close>, whatever the error was, when the body of an authenticated request
  does not parse, when the normalizer throws on one event of the batch (no push is issued
  then), and when one push is rejected; in the last case every notification of the batch
  has been pushed all the same.
\<close>

theorem main_failure:
  "(get data ''body'' = Inr b \<and> truthy b \<and> get data ''queryStringParameters'' = Inr q \<and> truthy q
      \<and> get q ''auth'' = Inr a \<and> authenticate cfg a = Inr True \<and> JSON_parse e b = Inl err
    \<longrightarrow> main cfg e data
        = (\<lparr>statusCode = 500, body = ''Internal Server Error'', isBase64Encoded = False\<rparr>, []))
   \<and> (gateway cfg e data = Inr (Inr d) \<and> x \<in> set (as_batch d) \<and> marshallEvent e x = Inl err
    \<longrightarrow> main cfg e data
        = (\<lparr>statusCode = 500, body = ''Internal Server Error'', isBase64Encoded = False\<rparr>, []))
   \<and> (gateway cfg e data = Inr (Inr d) \<and> mapE (marshallEvent e) (as_batch d) = Inr marshalled
      \<and> i < length (filter truthy marshalled)
      \<and> sendEvent cfg e i (filter truthy marshalled ! i) = Inr (c, Some err)
    \<longrightarrow> fst (main cfg e data)
        = \<lparr>statusCode = 500, body = ''Internal Server Error'', isBase64Encoded = False\<rparr>
      \<and> map snd (snd (main cfg e data)) = filter truthy marshalled)"
proof (intro conjI impI)
  assume a: "get data ''body'' = Inr b \<and> truthy b \<and> get data ''queryStringParameters'' = Inr q
      \<and> truthy q \<and> get q ''auth'' = Inr a \<and> authenticate cfg a = Inr True
      \<and> JSON_parse e b = Inl err"
  then have "gateway cfg e data = Inl err"
    using gateway_authenticate [of data b q a cfg e] by simp
  then show "main cfg e data
      = (\<lparr>statusCode = 500, body = ''Internal Server Error'', isBase64Encoded = False\<rparr>, [])"
    by (simp add: main_def internal_error_def)
next
  assume a: "gateway cfg e data = Inr (Inr d) \<and> x \<in> set (as_batch d) \<and> marshallEvent e x = Inl err"
  then obtain err' where "processEvents cfg e (as_batch d) = (Inl err', [])"
    using processEvents_throws [of x "as_batch d" e err cfg] by auto
  with a show "main cfg e data
      = (\<lparr>statusCode = 500, body = ''Internal Server Error'', isBase64Encoded = False\<rparr>, [])"
    by (simp add: main_def internal_error_def)
next
  assume a: "gateway cfg e data = Inr (Inr d) \<and> mapE (marshallEvent e) (as_batch d) = Inr marshalled
      \<and> i < length (filter truthy marshalled)
      \<and> sendEvent cfg e i (filter truthy marshalled ! i) = Inr (c, Some err)"
  then obtain err' made where p: "processEvents cfg e (as_batch d) = (Inl err', made)"
    and "map snd made = filter truthy marshalled"
    using processEvents_rejected [of e "as_batch d" marshalled i cfg c err] by auto
  with a show "fst (main cfg e data)
      = \<lparr>statusCode = 500, body = ''Internal Server Error'', isBase64Encoded = False\<rparr>"
    and "map snd (snd (main cfg e data)) = filter truthy marshalled"
    by (simp_all add: main_def internal_error_def)
qed

lemma sample_batch_posted:
  "mapE (marshallEvent posted_env) (as_batch sample_batch)
     = Inr [sample_bounce, sample_delivery, JUndefined, sample_complaint]"
  by code_simp

lemma sample_batch_failing:
  "mapE (marshallEvent failing_env) (as_batch sample_batch)
     = Inr [sample_bounce, sample_delivery, JUndefined, sample_complaint]"
  by code_simp

lemma sample_survivors:
  "filter truthy [sample_bounce, sample_delivery, JUndefined, sample_complaint]
     = [sample_bounce, sample_delivery, sample_complaint]"
  by (simp add: sample_bounce_def sample_delivery_def sample_complaint_def)

lemma second_push_fails:
  "sendEvent sample_config failing_env (Suc 0) sample_delivery
     = Inr ((JStr ''fxa-email-delivery-dev'', sample_delivery), Some (Error ''queue unavailable''))"
  by code_simp

lemma marshallEvent_late: "kind \<noteq> [] \<Longrightarrow> marshallEvent e (late_event kind) = Inl RangeError"
  by (simp add: late_event_def marshallEvent_def mapTimestamp_num)

lemma decimal_3: "decimal (Suc (Suc (Suc 0))) = ''3''"
  by code_simp

text \<open>
  Claim C6 on the sample batch, posted with the right credential: three pushes, and
  \<^verbatim>\<open>Processed 3 events\<close>.
\<close>

theorem main_success_witness:
  "fst (main sample_config posted_env (request ''[...]'' [(''auth'', JStr ''secret'')]))
     = \<lparr>statusCode = 200, body = ''Processed 3 events'', isBase64Encoded = False\<rparr>
   \<and> length (snd (main sample_config posted_env (request ''[...]'' [(''auth'', JStr ''secret'')])))
     = 3"
proof -
  let ?data = "request ''[...]'' [(''auth'', JStr ''secret'')]"
  have "get ?data ''body'' = Inr (JStr ''[...]'')" and "truthy (JStr ''[...]'')"
    and "get ?data ''queryStringParameters'' = Inr (JObj [(''auth'', JStr ''secret'')])"
    and "truthy (JObj [(''auth'', JStr ''secret'')])"
    and "get (JObj [(''auth'', JStr ''secret'')]) ''auth'' = Inr (JStr ''secret'')"
    by (simp_all add: request_def)
  from gateway_authenticate [OF this, of sample_config posted_env]
  have g: "gateway sample_config posted_env ?data = Inr (Inr sample_batch)"
    using authenticate_secret [of sample_config]
    by (simp add: sample_config_def posted_env_def sample_env_def)
  have q: "\<forall>i queue message. pushAsync posted_env i queue message = None"
    by (simp add: posted_env_def sample_env_def)
  from main_success [OF g sample_batch_posted q, unfolded sample_survivors] show ?thesis
    by (simp add: decimal_3)
qed

text \<open>
  Claim C7 on a body that does not parse, on a batch with an event that makes
  \<^verbatim>\<open>toISOString\<close> throw, and on the sample batch when the second push is rejected.
\<close>

theorem main_failure_witness:
  "main sample_config quiet_env (request ''[...'' [(''auth'', JStr ''secret'')])
     = (\<lparr>statusCode = 500, body = ''Internal Server Error'', isBase64Encoded = False\<rparr>, [])
   \<and> main sample_config quiet_env (JArr [late_event ''delivered''])
     = (\<lparr>statusCode = 500, body = ''Internal Server Error'', isBase64Encoded = False\<rparr>, [])
   \<and> fst (main sample_config failing_env (request ''[...]'' [(''auth'', JStr ''secret'')]))
     = \<lparr>statusCode = 500, body = ''Internal Server Error'', isBase64Encoded = False\<rparr>
   \<and> length (snd (main sample_config failing_env (request ''[...]'' [(''auth'', JStr ''secret'')])))
     = 3"
proof -
  let ?bad = "request ''[...'' [(''auth'', JStr ''secret'')]"
  let ?data = "request ''[...]'' [(''auth'', JStr ''secret'')]"
  let ?q = "JObj [(''auth'', JStr ''secret'')]"
  let ?late = "JArr [late_event ''delivered'']"
  let ?r = "\<lparr>statusCode = 500, body = ''Internal Server Error'', isBase64Encoded = False\<rparr>"
  have auth: "authenticate sample_config (JStr ''secret'') = Inr True"
    using authenticate_secret [of sample_config] by (simp add: sample_config_def)
  have "get ?bad ''body'' = Inr (JStr ''[...'') \<and> truthy (JStr ''[...'')
      \<and> get ?bad ''queryStringParameters'' = Inr ?q \<and> truthy ?q
      \<and> get ?q ''auth'' = Inr (JStr ''secret'')
      \<and> authenticate sample_config (JStr ''secret'') = Inr True
      \<and> JSON_parse quiet_env (JStr ''[...'') = Inl SyntaxError"
    using auth by (simp add: request_def quiet_env_def sample_env_def)
  with main_failure [where data = ?bad and b = "JStr ''[...''" and q = ?q and a = "JStr ''secret''"
      and cfg = sample_config and e = quiet_env and err = SyntaxError]
  have one: "main sample_config quiet_env ?bad = (?r, [])"
    by simp
  have "gateway sample_config quiet_env ?late = Inr (Inr ?late)
      \<and> late_event ''delivered'' \<in> set (as_batch ?late)
      \<and> marshallEvent quiet_env (late_event ''delivered'') = Inl RangeError"
    by (simp add: gateway_direct as_batch_def marshallEvent_late)
  with main_failure [where data = ?late and d = ?late and x = "late_event ''delivered''"
      and cfg = sample_config and e = quiet_env and err = RangeError]
  have two: "main sample_config quiet_env ?late = (?r, [])"
    by simp
  have "get ?data ''body'' = Inr (JStr ''[...]'')" and "truthy (JStr ''[...]'')"
    and "get ?data ''queryStringParameters'' = Inr ?q" and "truthy ?q"
    and "get ?q ''auth'' = Inr (JStr ''secret'')"
    by (simp_all add: request_def)
  from gateway_authenticate [OF this, of sample_config failing_env] auth
  have g: "gateway sample_config failing_env ?data = Inr (Inr sample_batch)"
    by (simp add: failing_env_def sample_env_def)
  have "gateway sample_config failing_env ?data = Inr (Inr sample_batch)
      \<and> mapE (marshallEvent failing_env) (as_batch sample_batch)
          = Inr [sample_bounce, sample_delivery, JUndefined, sample_complaint]
      \<and> Suc 0 < length (filter truthy [sample_bounce, sample_delivery, JUndefined, sample_complaint])
      \<and> sendEvent sample_config failing_env (Suc 0)
            (filter truthy [sample_bounce, sample_delivery, JUndefined, sample_complaint] ! Suc 0)
          = Inr ((JStr ''fxa-email-delivery-dev'', sample_delivery),
                 Some (Error ''queue unavailable''))"
    unfolding sample_survivors using g by (simp add: sample_batch_failing second_push_fails)
  with main_failure [where data = ?data and d = sample_batch and cfg = sample_config
      and e = failing_env and i = "Suc 0"
      and marshalled = "[sample_bounce, sample_delivery, JUndefined, sample_complaint]"
      and c = "(JStr ''fxa-email-delivery-dev'', sample_delivery)"
      and err = "Error ''queue unavailable''"]
  have r: "fst (main sample_config failing_env ?data) = ?r"
    and m: "map snd (snd (main sample_config failing_env ?data))
          = filter truthy [sample_bounce, sample_delivery, JUndefined, sample_complaint]"
    by simp_all
  from m have "length (map snd (snd (main sample_config failing_env ?data)))
      = length [sample_bounce, sample_delivery, sample_complaint]"
    unfolding sample_survivors by (rule arg_cong)
  then have three: "length (snd (main sample_config failing_env ?data)) = 3"
    by simp
  from one two r three show ?thesis by simp
qed

section \<open>Digests of the sample credentials\<close>

text \<open>The test vector of FIPS 180-4 for the message \<^verbatim>\<open>abc\<close>, in base64.\<close>

lemma digest_abc: "base64 (sha256 ''abc'') = ''ungWv48Bz+pBQUDeXa4iI7ADYaOWF3qctBD/YfIAFa0=''"
  by code_simp

lemma digest_secret: "base64 (sha256 ''secret'') = ''K7gNU3sdo+OL0wNhqoVWhr3g6s1xYv72ol/pe/Unols=''"
  by code_simp

lemma digest_wrong: "base64 (sha256 ''wrong'') = ''iBCtWB5Z8rw5KLJhcHpxMI9+E56wSCA2bcTVwY2YAiU=''"
  by code_simp

lemma authenticate_wrong: "authenticate sample_config (JStr ''wrong'') = Inr False"
  by (simp add: authenticate_digest AUTH_HASH_def sample_config_def digest_secret digest_wrong)

text \<open>A request with a body and a wrong credential: 401, and no push.\<close>

lemma wrong_credential_unauthorized:
  "main sample_config e (request ''[...]'' [(''auth'', JStr ''wrong'')]) = (unauthorized, [])"
proof -
  let ?data = "request ''[...]'' [(''auth'', JStr ''wrong'')]"
  let ?q = "JObj [(''auth'', JStr ''wrong'')]"
  have "get ?data ''body'' = Inr (JStr ''[...]'')" and "truthy (JStr ''[...]'')"
    and "get ?data ''queryStringParameters'' = Inr ?q"
    and "\<not> truthy ?q \<or> (\<exists>a. get ?q ''auth'' = Inr a \<and> authenticate sample_config a = Inr False)"
    by (simp_all add: request_def authenticate_wrong)
  then show ?thesis by (rule main_unauthorized)
qed

text \<open>
  Claim C8, at an input where the code departs from it. The claim has \<^verbatim>\<open>authenticate\<close> compare
  the two digests at every position of the expected digest, wherever the first mismatch is.
  With the secret \<^verbatim>\<open>secret\<close> and the candidate \<^verbatim>\<open>wrong\<close> the digests differ in their first
  character: the callback of the \<^verbatim>\<open>reduce\<close> still runs at all 44 positions, but \<^verbatim>\<open>&&\<close> skips
  its right operand once \<^verbatim>\<open>equal\<close> is false, and only the first position is compared.
\<close>

theorem mismatch_ends_comparisons:
  "length (AUTH_HASH sample_config) = 44
   \<and> calls (compare_digest (AUTH_HASH sample_config) (base64 (sha256 ''wrong''))) = 44
   \<and> compared (compare_digest (AUTH_HASH sample_config) (base64 (sha256 ''wrong''))) = 1"
  by (simp add: compare_digest_eq AUTH_HASH_def sample_config_def digest_secret digest_wrong)

end
